theory Spec2Isabelle
  imports Main "HOL-Library.Word"
begin

section \<open>Rows: decoded JSON values\<close>

text \<open>
  The migration script moves rows between two remote tables. A row is what
  \<^verbatim>\<open>response.json()\<close> decodes: a Python dict from field names to JSON values.
  A float is kept as its 64-bit pattern, since the script never computes with one.
  A dict is an association list in insertion order; \<^verbatim>\<open>dict.get\<close> looks at the
  first binding of a key, and a decoded dict has one binding per key.
\<close>

datatype json =
    JNull
  | JBool bool
  | JInt int
  | JFloat "64 word"
  | JStr string
  | JArr "json list"
  | JObj "(string \<times> json) list"

type_synonym row = "(string \<times> json) list"

text \<open>\<^verbatim>\<open>item.get(key, default)\<close>: the value bound to the key when the key is in the
  dict, whatever that value is, and the default otherwise.\<close>

definition dict_get :: "row \<Rightarrow> string \<Rightarrow> json \<Rightarrow> json" where
  "dict_get item key dflt = (case map_of item key of Some v \<Rightarrow> v | None \<Rightarrow> dflt)"

section \<open>The four transforms\<close>

text \<open>Each transform starts from an empty list and appends one new dict per input
  item; the dict literal is written out field by field as in the source.\<close>

definition transform_cat_name_options :: "row list \<Rightarrow> row list" where
  "transform_cat_name_options data =
     foldl (\<lambda>transformed item. transformed @
       [[(''name'', dict_get item ''name'' (JStr '''')),
         (''description'', dict_get item ''description'' (JStr '''')),
         (''avg_rating'', dict_get item ''avg_rating'' (JInt 1500)),
         (''popularity_score'', dict_get item ''popularity_score'' (JInt 0)),
         (''total_tournaments'', dict_get item ''total_tournaments'' (JInt 0)),
         (''is_active'', dict_get item ''is_active'' (JBool True)),
         (''categories'', dict_get item ''categories'' (JArr []))]]) [] data"

definition transform_cat_app_users :: "row list \<Rightarrow> row list" where
  "transform_cat_app_users data =
     foldl (\<lambda>transformed item. transformed @
       [[(''user_name'', dict_get item ''user_name'' (JStr '''')),
         (''preferences'', dict_get item ''preferences'' (JObj
            [(''sound_enabled'', JBool True),
             (''theme_preference'', JStr ''dark''),
             (''preferred_categories'', JArr []),
             (''rating_display_preference'', JStr ''elo''),
             (''tournament_size_preference'', JInt 8)])),
         (''tournament_data'', dict_get item ''tournament_data'' (JArr []))]]) [] data"

definition transform_cat_name_ratings :: "row list \<Rightarrow> row list" where
  "transform_cat_name_ratings data =
     foldl (\<lambda>transformed item. transformed @
       [[(''user_name'', dict_get item ''user_name'' (JStr '''')),
         (''name_id'', dict_get item ''name_id'' (JStr '''')),
         (''rating'', dict_get item ''rating'' (JInt 1500)),
         (''wins'', dict_get item ''wins'' (JInt 0)),
         (''losses'', dict_get item ''losses'' (JInt 0)),
         (''is_hidden'', dict_get item ''is_hidden'' (JBool False)),
         (''rating_history'', dict_get item ''rating_history'' (JArr []))]]) [] data"

definition transform_tournament_selections :: "row list \<Rightarrow> row list" where
  "transform_tournament_selections data =
     foldl (\<lambda>transformed item. transformed @
       [[(''user_name'', dict_get item ''user_name'' (JStr '''')),
         (''name_id'', dict_get item ''name_id'' (JStr '''')),
         (''name'', dict_get item ''name'' (JStr '''')),
         (''tournament_id'', dict_get item ''tournament_id'' (JStr '''')),
         (''selected_at'', dict_get item ''selected_at'' (JStr '''')),
         (''selection_type'', dict_get item ''selection_type'' (JStr ''tournament_setup''))]])
       [] data"

section \<open>The HTTP client and the console\<close>

text \<open>
  The script talks to the two projects through \<^verbatim>\<open>requests.get\<close> and
  \<^verbatim>\<open>requests.post\<close>. An exception is a value: \<open>HTTPError\<close> is what
  \<^verbatim>\<open>raise_for_status\<close> raises (status code and response text), \<open>RequestError\<close> is any
  other subclass of \<^verbatim>\<open>RequestException\<close> (its message, and the text of its response when
  it has one), \<open>OtherError\<close> is an exception outside that class, which no handler of the
  script catches.
\<close>

datatype exn =
    HTTPError nat string
  | RequestError string "string option"
  | OtherError string

fun is_request_exception :: "exn \<Rightarrow> bool" where
  "is_request_exception (HTTPError code txt) = True"
| "is_request_exception (RequestError m r) = True"
| "is_request_exception (OtherError m) = False"

text \<open>\<^verbatim>\<open>e.response.text\<close> when the exception has a response that is not None.\<close>

fun exn_response_text :: "exn \<Rightarrow> string option" where
  "exn_response_text (HTTPError code txt) = Some txt"
| "exn_response_text (RequestError m r) = r"
| "exn_response_text (OtherError m) = None"

text \<open>A response: its status code, its text, and what \<^verbatim>\<open>response.json()\<close> gives:
  the decoded rows, or the exception the decoder raises on a malformed body.\<close>

record response =
  status_code :: nat
  resp_text :: string
  resp_json :: "exn + row list"

datatype http_method = GET | POST

record request =
  req_method :: http_method
  req_url :: string
  req_headers :: "(string \<times> string) list"
  req_json :: "row list option"

datatype http_result = Raise exn | Return response

text \<open>The remote side is a parameter: it answers a request knowing every request
  sent before it, so a server may fail on the second write and not on the first.\<close>

type_synonym network = "request list \<Rightarrow> request \<Rightarrow> http_result"

text \<open>Console lines. Each constructor is one \<^verbatim>\<open>print\<close> statement of the script, with
  the values its format string interpolates.\<close>

datatype msg =
    ErrorGetting string exn
  | NoDataToInsert string
  | InsertedBatch nat string nat
  | ErrorInserting string exn
  | ResponseContent string
  | Starting
  | FromProject string
  | ToProject string
  | Blank
  | Extracting string
  | Extracted nat string
  | Transforming string
  | Inserting string
  | Migrated string
  | FailedToMigrate string
  | Continuing
  | NoDataFound string
  | Completed
  | CheckProject

text \<open>The state the script acts on: the requests sent so far and the lines printed
  so far, oldest first.\<close>

record world =
  reqs :: "request list"
  out :: "msg list"

definition say :: "msg \<Rightarrow> world \<Rightarrow> world" where
  "say m w = w\<lparr>out := out w @ [m]\<rparr>"

definition send :: "network \<Rightarrow> request \<Rightarrow> world \<Rightarrow> http_result \<times> world" where
  "send net rq w = (net (reqs w) rq, w\<lparr>reqs := reqs w @ [rq]\<rparr>)"

text \<open>\<^verbatim>\<open>response.raise_for_status()\<close> raises for the codes 400 to 599 and for no other.\<close>

definition raise_for_status :: "response \<Rightarrow> exn option" where
  "raise_for_status r =
     (if 400 \<le> status_code r \<and> status_code r < 600
      then Some (HTTPError (status_code r) (resp_text r)) else None)"

section \<open>Extractor\<close>

definition get_data_from_table ::
  "network \<Rightarrow> string \<Rightarrow> string \<Rightarrow> string \<Rightarrow> world \<Rightarrow> (exn + row list) \<times> world" where
  "get_data_from_table net project_url anon_key table_name w =
     (let headers = [(''apikey'', anon_key),
                     (''Authorization'', ''Bearer '' @ anon_key),
                     (''Content-Type'', ''application/json''),
                     (''Prefer'', ''return=representation'')];
          url = project_url @ ''/rest/v1/'' @ table_name @ ''?select=*'';
          (tried, w1) =
            (case send net \<lparr>req_method = GET, req_url = url, req_headers = headers,
                              req_json = None\<rparr> w of
               (Raise e, w') \<Rightarrow> (Inl e, w')
             | (Return response, w') \<Rightarrow>
                 (case raise_for_status response of
                    Some e \<Rightarrow> (Inl e, w')
                  | None \<Rightarrow> (resp_json response, w')))
      in case tried of
           Inr rows \<Rightarrow> (Inr rows, w1)
         | Inl e \<Rightarrow>
             if is_request_exception e
             then (Inr [], say (ErrorGetting table_name e) w1)
             else (Inl e, w1))"

section \<open>Loader\<close>

definition batch_size :: nat where
  "batch_size = 50"

text \<open>\<^verbatim>\<open>range(start, stop, step)\<close> for a positive step, and the slice
  \<^verbatim>\<open>data[i:j]\<close> for \<open>i \<le> j\<close>, which stops at the end of the list.\<close>

function py_range :: "nat \<Rightarrow> nat \<Rightarrow> nat \<Rightarrow> nat list" where
  "py_range start stop step =
     (if 0 < step \<and> start < stop then start # py_range (start + step) stop step else [])"
  by pat_completeness auto
termination
  by (relation "measure (\<lambda>(start, stop, step). stop - start)") auto

definition slice :: "'a list \<Rightarrow> nat \<Rightarrow> nat \<Rightarrow> 'a list" where
  "slice xs i j = take (j - i) (drop i xs)"

text \<open>The body of the \<^verbatim>\<open>try\<close> block: one POST per index of the range; the first
  exception leaves the loop.\<close>

fun insert_batches ::
  "network \<Rightarrow> string \<Rightarrow> (string \<times> string) list \<Rightarrow> string \<Rightarrow> row list \<Rightarrow> nat list
     \<Rightarrow> world \<Rightarrow> (exn + unit) \<times> world" where
  "insert_batches net url headers table_name data [] w = (Inr (), w)"
| "insert_batches net url headers table_name data (i # rest) w =
     (let batch = slice data i (i + batch_size) in
      case send net \<lparr>req_method = POST, req_url = url, req_headers = headers,
                      req_json = Some batch\<rparr> w of
        (Raise e, w') \<Rightarrow> (Inl e, w')
      | (Return response, w') \<Rightarrow>
          (case raise_for_status response of
             Some e \<Rightarrow> (Inl e, w')
           | None \<Rightarrow>
               insert_batches net url headers table_name data rest
                 (say (InsertedBatch (i div batch_size + 1) table_name (length batch)) w')))"

definition insert_data_to_table ::
  "network \<Rightarrow> string \<Rightarrow> string \<Rightarrow> string \<Rightarrow> row list \<Rightarrow> bool \<Rightarrow> world
     \<Rightarrow> (exn + bool) \<times> world" where
  "insert_data_to_table net project_url anon_key table_name data use_upsert w =
     (if data = [] then (Inr True, say (NoDataToInsert table_name) w)
      else
        let headers = [(''apikey'', anon_key),
                       (''Authorization'', ''Bearer '' @ anon_key),
                       (''Content-Type'', ''application/json''),
                       (''Prefer'', if use_upsert
                                    then ''return=representation,resolution=merge-duplicates''
                                    else ''return=representation'')];
            url = project_url @ ''/rest/v1/'' @ table_name
        in case insert_batches net url headers table_name data
                  (py_range 0 (length data) batch_size) w of
             (Inr u, w') \<Rightarrow> (Inr True, w')
           | (Inl e, w') \<Rightarrow>
               if is_request_exception e
               then let w2 = say (ErrorInserting table_name e) w' in
                    (Inr False, case exn_response_text e of
                                  Some txt \<Rightarrow> say (ResponseContent txt) w2
                                | None \<Rightarrow> w2)
               else (Inl e, w'))"

section \<open>Orchestrator\<close>

definition OLD_PROJECT_ID :: string where
  "OLD_PROJECT_ID = ''xazswqjxukvghmjbhiap''"

definition NEW_PROJECT_ID :: string where
  "NEW_PROJECT_ID = ''ocghxwwwuubgmwsxgyoy''"

definition OLD_SUPABASE_URL :: string where
  "OLD_SUPABASE_URL = ''https://'' @ OLD_PROJECT_ID @ ''.supabase.co''"

definition NEW_SUPABASE_URL :: string where
  "NEW_SUPABASE_URL = ''https://'' @ NEW_PROJECT_ID @ ''.supabase.co''"

text \<open>A table descriptor is the tuple of the source: table name, display name,
  transform, upsert flag.\<close>

type_synonym descriptor = "string \<times> string \<times> (row list \<Rightarrow> row list) \<times> bool"

definition tables :: "descriptor list" where
  "tables =
     [(''cat_name_options'', ''cat_name_options'', transform_cat_name_options, True),
      (''cat_app_users'', ''cat_app_users'', transform_cat_app_users, False),
      (''cat_name_ratings'', ''cat_name_ratings'', transform_cat_name_ratings, False),
      (''tournament_selections'', ''tournament_selections'',
         transform_tournament_selections, False)]"

text \<open>The body of the \<^verbatim>\<open>for\<close> loop of \<^verbatim>\<open>main\<close> for one descriptor, and the loop
  over a list of descriptors. The two access keys are module constants of the script;
  here they are arguments, so every result holds whatever the keys are.\<close>

fun migrate_table ::
  "network \<Rightarrow> string \<Rightarrow> string \<Rightarrow> descriptor \<Rightarrow> world \<Rightarrow> (exn + unit) \<times> world" where
  "migrate_table net OLD_ANON_KEY NEW_ANON_KEY
     (table_name, display_name, transform_func, use_upsert) w =
     (case get_data_from_table net OLD_SUPABASE_URL OLD_ANON_KEY table_name
             (say (Extracting display_name) w) of
        (Inl e, w1) \<Rightarrow> (Inl e, w1)
      | (Inr data, w1) \<Rightarrow>
          (case (if data \<noteq> [] then
                   (let w2 = say (Extracted (length data) display_name) w1;
                        w3 = say (Transforming display_name) w2;
                        transformed_data = transform_func data;
                        w4 = say (Inserting display_name) w3
                    in case insert_data_to_table net NEW_SUPABASE_URL NEW_ANON_KEY
                              table_name transformed_data use_upsert w4 of
                         (Inl e, w5) \<Rightarrow> (Inl e, w5)
                       | (Inr success, w5) \<Rightarrow>
                           (Inr (),
                            if success then say (Migrated display_name) w5
                            else say Continuing (say (FailedToMigrate display_name) w5)))
                 else (Inr (), say (NoDataFound display_name) w1)) of
             (Inl e, w6) \<Rightarrow> (Inl e, w6)
           | (Inr u, w6) \<Rightarrow> (Inr (), say Blank w6)))"

fun migrate_tables ::
  "network \<Rightarrow> string \<Rightarrow> string \<Rightarrow> descriptor list \<Rightarrow> world \<Rightarrow> (exn + unit) \<times> world" where
  "migrate_tables net OLD_ANON_KEY NEW_ANON_KEY [] w = (Inr (), w)"
| "migrate_tables net OLD_ANON_KEY NEW_ANON_KEY (descriptor # rest) w =
     (case migrate_table net OLD_ANON_KEY NEW_ANON_KEY descriptor w of
        (Inl e, w') \<Rightarrow> (Inl e, w')
      | (Inr u, w') \<Rightarrow> migrate_tables net OLD_ANON_KEY NEW_ANON_KEY rest w')"

definition main :: "network \<Rightarrow> string \<Rightarrow> string \<Rightarrow> (exn + unit) \<times> world" where
  "main net OLD_ANON_KEY NEW_ANON_KEY =
     (let w = say Blank (say (ToProject NEW_PROJECT_ID) (say (FromProject OLD_PROJECT_ID)
                (say Starting \<lparr>reqs = [], out = []\<rparr>)))
      in case migrate_tables net OLD_ANON_KEY NEW_ANON_KEY tables w of
           (Inl e, w') \<Rightarrow> (Inl e, w')
         | (Inr u, w') \<Rightarrow> (Inr (), say CheckProject (say Completed w')))"

section \<open>What the transforms are specified to do\<close>

text \<open>The destination fields of each table with the default the source gives each, and
  the reading of "same rows, same order, each recognised field copied when present and
  defaulted otherwise".\<close>

definition cat_name_options_defaults :: "(string \<times> json) list" where
  "cat_name_options_defaults =
     [(''name'', JStr ''''), (''description'', JStr ''''), (''avg_rating'', JInt 1500),
      (''popularity_score'', JInt 0), (''total_tournaments'', JInt 0),
      (''is_active'', JBool True), (''categories'', JArr [])]"

definition cat_app_users_defaults :: "(string \<times> json) list" where
  "cat_app_users_defaults =
     [(''user_name'', JStr ''''),
      (''preferences'', JObj [(''sound_enabled'', JBool True),
                              (''theme_preference'', JStr ''dark''),
                              (''preferred_categories'', JArr []),
                              (''rating_display_preference'', JStr ''elo''),
                              (''tournament_size_preference'', JInt 8)]),
      (''tournament_data'', JArr [])]"

definition cat_name_ratings_defaults :: "(string \<times> json) list" where
  "cat_name_ratings_defaults =
     [(''user_name'', JStr ''''), (''name_id'', JStr ''''), (''rating'', JInt 1500),
      (''wins'', JInt 0), (''losses'', JInt 0), (''is_hidden'', JBool False),
      (''rating_history'', JArr [])]"

definition tournament_selections_defaults :: "(string \<times> json) list" where
  "tournament_selections_defaults =
     [(''user_name'', JStr ''''), (''name_id'', JStr ''''), (''name'', JStr ''''),
      (''tournament_id'', JStr ''''), (''selected_at'', JStr ''''),
      (''selection_type'', JStr ''tournament_setup'')]"

definition copied_or_defaulted ::
  "(string \<times> json) list \<Rightarrow> row list \<Rightarrow> row list \<Rightarrow> bool" where
  "copied_or_defaulted defaults data result \<longleftrightarrow>
     length result = length data \<and>
     (\<forall>i<length data. \<forall>(key, dflt)\<in>set defaults.
        map_of (result ! i) key =
          Some (case map_of (data ! i) key of Some v \<Rightarrow> v | None \<Rightarrow> dflt))"

text \<open>The reading of "a missing field is defaulted, a field present with null keeps
  its null".\<close>

definition missing_defaulted_null_kept ::
  "(string \<times> json) list \<Rightarrow> row list \<Rightarrow> row list \<Rightarrow> bool" where
  "missing_defaulted_null_kept defaults data result \<longleftrightarrow>
     (\<forall>i<length data. \<forall>(key, dflt)\<in>set defaults.
        (map_of (data ! i) key = None \<longrightarrow> map_of (result ! i) key = Some dflt) \<and>
        (map_of (data ! i) key = Some JNull \<longrightarrow> map_of (result ! i) key = Some JNull))"

text \<open>The equation of \<open>py_range\<close> is unfolded by hand, one step at a time.\<close>

declare py_range.simps [simp del]

section \<open>Requests and outcomes the properties speak of\<close>

text \<open>The read request of a table: a GET of \<^verbatim>\<open>{base}/rest/v1/{table}?select=*\<close> with the
  key headers.\<close>

definition select_all_request :: "string \<Rightarrow> string \<Rightarrow> string \<Rightarrow> request" where
  "select_all_request project_url anon_key table_name =
     \<lparr>req_method = GET,
      req_url = project_url @ ''/rest/v1/'' @ table_name @ ''?select=*'',
      req_headers = [(''apikey'', anon_key),
                     (''Authorization'', ''Bearer '' @ anon_key),
                     (''Content-Type'', ''application/json''),
                     (''Prefer'', ''return=representation'')],
      req_json = None\<rparr>"

text \<open>A write request: a POST carrying a batch as its JSON body; for a table, to
  \<^verbatim>\<open>{base}/rest/v1/{table}\<close> with the key headers and the duplicate-resolution header the
  write mode selects.\<close>

definition post_request :: "string \<Rightarrow> (string \<times> string) list \<Rightarrow> row list \<Rightarrow> request" where
  "post_request url headers batch =
     \<lparr>req_method = POST, req_url = url, req_headers = headers, req_json = Some batch\<rparr>"

definition write_request :: "string \<Rightarrow> string \<Rightarrow> string \<Rightarrow> bool \<Rightarrow> row list \<Rightarrow> request" where
  "write_request project_url anon_key table_name use_upsert batch =
     post_request (project_url @ ''/rest/v1/'' @ table_name)
       [(''apikey'', anon_key),
        (''Authorization'', ''Bearer '' @ anon_key),
        (''Content-Type'', ''application/json''),
        (''Prefer'', if use_upsert
                     then ''return=representation,resolution=merge-duplicates''
                     else ''return=representation'')]
       batch"

text \<open>What a call followed by \<^verbatim>\<open>raise_for_status\<close> raises, if anything. A request
  succeeds when nothing is raised; it fails, in the sense of the specification, when what
  is raised is a \<^verbatim>\<open>RequestException\<close>: a transport error or an error status.\<close>

fun thrown :: "http_result \<Rightarrow> exn option" where
  "thrown (Raise e) = Some e"
| "thrown (Return r) = raise_for_status r"

fun succeeds :: "http_result \<Rightarrow> bool" where
  "succeeds (Raise e) = False"
| "succeeds (Return r) = (\<not> (400 \<le> status_code r \<and> status_code r < 600))"

fun fails :: "http_result \<Rightarrow> bool" where
  "fails (Raise e) = is_request_exception e"
| "fails (Return r) = (400 \<le> status_code r \<and> status_code r < 600)"

text \<open>The partition of a list into consecutive pieces of \<open>n\<close> elements, the last one
  possibly shorter.\<close>

function chunks :: "nat \<Rightarrow> 'a list \<Rightarrow> 'a list list" where
  "chunks n xs = (if n = 0 \<or> xs = [] then [] else take n xs # chunks n (drop n xs))"
  by pat_completeness auto
termination
  by (relation "measure (\<lambda>(n, xs). length xs)") auto

declare chunks.simps [simp del]

text \<open>An answer is catchable when whatever it makes the script raise is a
  \<^verbatim>\<open>RequestException\<close>: the call itself, or the decoding of the body.\<close>

fun catchable :: "http_result \<Rightarrow> bool" where
  "catchable (Raise e) = is_request_exception e"
| "catchable (Return r) =
     (case resp_json r of Inl e \<Rightarrow> is_request_exception e | Inr rows \<Rightarrow> True)"

text \<open>A write request to a table of the destination project.\<close>

definition is_write_to :: "string \<Rightarrow> request \<Rightarrow> bool" where
  "is_write_to table_name rq \<longleftrightarrow>
     req_method rq = POST \<and> req_url rq = NEW_SUPABASE_URL @ ''/rest/v1/'' @ table_name"

text \<open>A pair of projects for the scenario of the specification: the source table
  \<open>cat_app_users\<close> is empty, every other source table holds one row, and the destination
  accepts every write.\<close>

definition users_table_empty :: network where
  "users_table_empty h rq =
     (if req_method rq = POST
      then Return \<lparr>status_code = 201, resp_text = ''created'', resp_json = Inr []\<rparr>
      else if req_url rq = OLD_SUPABASE_URL @ ''/rest/v1/cat_app_users?select=*''
      then Return \<lparr>status_code = 200, resp_text = ''none'', resp_json = Inr []\<rparr>
      else Return \<lparr>status_code = 200, resp_text = ''one'',
                     resp_json = Inr [[(''name'', JStr ''Tom'')]]\<rparr>)"

text \<open>The state of a run of \<^verbatim>\<open>main\<close> when its loop reaches descriptor \<open>k\<close> of the list,
  counting from 0: the state after the opening lines for \<open>k = 0\<close>, and otherwise the state
  in which the loop body left descriptor \<open>k - 1\<close>. For \<open>k = 4\<close> it is the state after the loop.\<close>

fun world_at :: "network \<Rightarrow> string \<Rightarrow> string \<Rightarrow> nat \<Rightarrow> world" where
  "world_at net OLD_ANON_KEY NEW_ANON_KEY 0 =
     say Blank (say (ToProject NEW_PROJECT_ID) (say (FromProject OLD_PROJECT_ID)
       (say Starting \<lparr>reqs = [], out = []\<rparr>)))"
| "world_at net OLD_ANON_KEY NEW_ANON_KEY (Suc k) =
     snd (migrate_table net OLD_ANON_KEY NEW_ANON_KEY (tables ! k)
            (world_at net OLD_ANON_KEY NEW_ANON_KEY k))"

section \<open>The transforms, row by row\<close>

lemma foldl_snoc_map: "foldl (\<lambda>acc x. acc @ [f x]) a xs = a @ map f xs"
  by (induction xs arbitrary: a) simp_all

lemmas transform_maps =
  transform_cat_name_options_def [unfolded foldl_snoc_map append_Nil]
  transform_cat_app_users_def [unfolded foldl_snoc_map append_Nil]
  transform_cat_name_ratings_def [unfolded foldl_snoc_map append_Nil]
  transform_tournament_selections_def [unfolded foldl_snoc_map append_Nil]

lemma options_copied:
  "copied_or_defaulted cat_name_options_defaults data (transform_cat_name_options data)"
  by (simp add: copied_or_defaulted_def cat_name_options_defaults_def transform_maps
      dict_get_def)

lemma users_copied:
  "copied_or_defaulted cat_app_users_defaults data (transform_cat_app_users data)"
  by (simp add: copied_or_defaulted_def cat_app_users_defaults_def transform_maps
      dict_get_def)

lemma ratings_copied:
  "copied_or_defaulted cat_name_ratings_defaults data (transform_cat_name_ratings data)"
  by (simp add: copied_or_defaulted_def cat_name_ratings_defaults_def transform_maps
      dict_get_def)

lemma selections_copied:
  "copied_or_defaulted tournament_selections_defaults data
     (transform_tournament_selections data)"
  by (simp add: copied_or_defaulted_def tournament_selections_defaults_def transform_maps
      dict_get_def)

text \<open>
  Claim C1. Each of the four transforms returns as many rows as it is given, in the
  same order, and in the row at each position every destination field holds the input
  row's value for that field when the input row has the field, and the field's default
  otherwise.
\<close>

theorem transforms_copy_or_default:
  "copied_or_defaulted cat_name_options_defaults data (transform_cat_name_options data) \<and>
   copied_or_defaulted cat_app_users_defaults data (transform_cat_app_users data) \<and>
   copied_or_defaulted cat_name_ratings_defaults data (transform_cat_name_ratings data) \<and>
   copied_or_defaulted tournament_selections_defaults data
     (transform_tournament_selections data)"
  by (simp only: options_copied users_copied ratings_copied selections_copied simp_thms)

theorem transforms_copy_or_default_witness:
  "length (transform_cat_name_ratings
     [[(''user_name'', JStr ''a'')], [(''rating'', JInt 7), (''extra'', JNull)]]) = 2 \<and>
   map_of (transform_cat_name_ratings
     [[(''user_name'', JStr ''a'')], [(''rating'', JInt 7), (''extra'', JNull)]] ! 0) ''rating''
     = Some (JInt 1500) \<and>
   map_of (transform_cat_name_ratings
     [[(''user_name'', JStr ''a'')], [(''rating'', JInt 7), (''extra'', JNull)]] ! 1) ''rating''
     = Some (JInt 7)"
  using transforms_copy_or_default
    [of "[[(''user_name'', JStr ''a'')], [(''rating'', JInt 7), (''extra'', JNull)]]"]
  by (simp add: copied_or_defaulted_def cat_name_ratings_defaults_def All_less_Suc)

lemma copied_imp_null_kept:
  "copied_or_defaulted defaults data result \<Longrightarrow> missing_defaulted_null_kept defaults data result"
  unfolding copied_or_defaulted_def missing_defaulted_null_kept_def
  by (auto split: prod.splits)

text \<open>
  Claim C2, as stated, fails: a row whose \<open>rating\<close> field is present with the value
  null comes out with \<open>rating\<close> null, not with the default 1500.
\<close>

theorem null_passes_through_counterexample:
  "map_of ([[(''user_name'', JStr ''a''), (''rating'', JNull)]] ! 0) ''rating'' = Some JNull \<and>
   map_of (transform_cat_name_ratings [[(''user_name'', JStr ''a''), (''rating'', JNull)]] ! 0)
     ''rating'' = Some JNull \<and>
   map_of (transform_cat_name_ratings [[(''user_name'', JStr ''a''), (''rating'', JNull)]] ! 0)
     ''rating'' \<noteq> Some (JInt 1500)"
  by (simp add: transform_maps dict_get_def)

text \<open>
  Claim C2, amended. In every row each of the four transforms gives a destination field
  its default when the input row lacks the field, and gives it null when the input row
  has the field with the value null.
\<close>

theorem transforms_default_missing_keep_null:
  "missing_defaulted_null_kept cat_name_options_defaults data (transform_cat_name_options data) \<and>
   missing_defaulted_null_kept cat_app_users_defaults data (transform_cat_app_users data) \<and>
   missing_defaulted_null_kept cat_name_ratings_defaults data (transform_cat_name_ratings data) \<and>
   missing_defaulted_null_kept tournament_selections_defaults data
     (transform_tournament_selections data)"
  by (intro conjI copied_imp_null_kept options_copied users_copied ratings_copied
      selections_copied)

theorem transforms_default_missing_keep_null_witness:
  "map_of (transform_cat_name_ratings
     [[(''user_name'', JStr ''a''), (''rating'', JNull)]] ! 0) ''wins'' = Some (JInt 0) \<and>
   map_of (transform_cat_name_ratings
     [[(''user_name'', JStr ''a''), (''rating'', JNull)]] ! 0) ''rating'' = Some JNull"
  using transforms_default_missing_keep_null
    [of "[[(''user_name'', JStr ''a''), (''rating'', JNull)]]"]
  by (simp add: missing_defaulted_null_kept_def cat_name_ratings_defaults_def)

text \<open>
  Claim C9. For every input row a transform returns one output row, at the same
  position, and that row has exactly the destination keys of its table, in the order of
  the dict literal, whatever keys the input row has; so every output row has exactly
  those keys and no key of the input outside them appears.
\<close>

theorem transforms_output_keys:
  "(length (transform_cat_name_options data) = length data \<and>
    (\<forall>i<length data. map fst (transform_cat_name_options data ! i) =
       [''name'', ''description'', ''avg_rating'', ''popularity_score'',
        ''total_tournaments'', ''is_active'', ''categories''])) \<and>
   (length (transform_cat_app_users data) = length data \<and>
    (\<forall>i<length data. map fst (transform_cat_app_users data ! i) =
       [''user_name'', ''preferences'', ''tournament_data''])) \<and>
   (length (transform_cat_name_ratings data) = length data \<and>
    (\<forall>i<length data. map fst (transform_cat_name_ratings data ! i) =
       [''user_name'', ''name_id'', ''rating'', ''wins'', ''losses'', ''is_hidden'',
        ''rating_history''])) \<and>
   (length (transform_tournament_selections data) = length data \<and>
    (\<forall>i<length data. map fst (transform_tournament_selections data ! i) =
       [''user_name'', ''name_id'', ''name'', ''tournament_id'', ''selected_at'',
        ''selection_type'']))"
  by (simp add: transform_maps)

theorem transforms_output_keys_witness:
  "length (transform_cat_name_options
      [[(''name'', JStr ''Tom''), (''colour'', JStr ''grey'')], []]) = 2 \<and>
   map fst (transform_cat_name_options
      [[(''name'', JStr ''Tom''), (''colour'', JStr ''grey'')], []] ! 0) =
     [''name'', ''description'', ''avg_rating'', ''popularity_score'',
      ''total_tournaments'', ''is_active'', ''categories''] \<and>
   map fst (transform_cat_name_options
      [[(''name'', JStr ''Tom''), (''colour'', JStr ''grey'')], []] ! 1) =
     [''name'', ''description'', ''avg_rating'', ''popularity_score'',
      ''total_tournaments'', ''is_active'', ''categories''] \<and>
   map fst (transform_cat_name_ratings
      [[(''user_name'', JStr ''a''), (''colour'', JStr ''grey'')]] ! 0) =
     [''user_name'', ''name_id'', ''rating'', ''wins'', ''losses'', ''is_hidden'',
      ''rating_history'']"
  using transforms_output_keys
      [of "[[(''name'', JStr ''Tom''), (''colour'', JStr ''grey'')], []]"]
    transforms_output_keys
      [of "[[(''user_name'', JStr ''a''), (''colour'', JStr ''grey'')]]"]
  by (simp add: All_less_Suc)

section \<open>The loader\<close>

text \<open>
  Claim C7. Called with an empty row list the loader returns True and sends no request,
  whatever the write mode.
\<close>

theorem empty_insert_succeeds_silently:
  "fst (insert_data_to_table net project_url anon_key table_name [] use_upsert w) = Inr True \<and>
   reqs (snd (insert_data_to_table net project_url anon_key table_name [] use_upsert w)) = reqs w"
  by (simp add: insert_data_to_table_def say_def)

lemma py_range_single: "0 < n \<Longrightarrow> n \<le> step \<Longrightarrow> py_range 0 n step = [0]"
  by (subst py_range.simps, simp, subst py_range.simps, simp)

lemma reqs_say [simp]: "reqs (say m w) = reqs w"
  by (simp add: say_def)

lemma single_batch_request:
  "reqs (snd (insert_data_to_table net project_url anon_key table_name [r] use_upsert w)) =
   reqs w @ [\<lparr>req_method = POST, req_url = project_url @ ''/rest/v1/'' @ table_name,
              req_headers = [(''apikey'', anon_key),
                             (''Authorization'', ''Bearer '' @ anon_key),
                             (''Content-Type'', ''application/json''),
                             (''Prefer'', if use_upsert
                                then ''return=representation,resolution=merge-duplicates''
                                else ''return=representation'')],
              req_json = Some [r]\<rparr>]"
  by (simp add: insert_data_to_table_def py_range_single batch_size_def slice_def send_def
      Let_def split: http_result.splits option.splits prod.splits sum.splits)

text \<open>
  Claim C8. The row with only \<open>user_name\<close> and \<open>name_id\<close> is transformed into the
  seven-field row with rating 1500, wins 0, losses 0, is_hidden false and an empty
  rating_history, and the loader given that result sends exactly one request: a POST to
  the table, whose body is the one-element list holding that row.
\<close>

theorem ratings_row_end_to_end:
  "transform_cat_name_ratings [[(''user_name'', JStr ''a''), (''name_id'', JStr ''n1'')]] =
     [[(''user_name'', JStr ''a''), (''name_id'', JStr ''n1''), (''rating'', JInt 1500),
       (''wins'', JInt 0), (''losses'', JInt 0), (''is_hidden'', JBool False),
       (''rating_history'', JArr [])]] \<and>
   reqs (snd (insert_data_to_table net project_url anon_key table_name
           (transform_cat_name_ratings
              [[(''user_name'', JStr ''a''), (''name_id'', JStr ''n1'')]]) use_upsert w)) =
   reqs w @ [\<lparr>req_method = POST, req_url = project_url @ ''/rest/v1/'' @ table_name,
              req_headers = [(''apikey'', anon_key),
                             (''Authorization'', ''Bearer '' @ anon_key),
                             (''Content-Type'', ''application/json''),
                             (''Prefer'', if use_upsert
                                then ''return=representation,resolution=merge-duplicates''
                                else ''return=representation'')],
              req_json = Some [[(''user_name'', JStr ''a''), (''name_id'', JStr ''n1''),
                                (''rating'', JInt 1500), (''wins'', JInt 0),
                                (''losses'', JInt 0), (''is_hidden'', JBool False),
                                (''rating_history'', JArr [])]]\<rparr>]"
proof -
  have t: "transform_cat_name_ratings
             [[(''user_name'', JStr ''a''), (''name_id'', JStr ''n1'')]] =
           [[(''user_name'', JStr ''a''), (''name_id'', JStr ''n1''), (''rating'', JInt 1500),
             (''wins'', JInt 0), (''losses'', JInt 0), (''is_hidden'', JBool False),
             (''rating_history'', JArr [])]]"
    by (simp add: transform_maps dict_get_def)
  show ?thesis
    unfolding t by (rule conjI [OF refl single_batch_request])
qed

section \<open>The extractor\<close>

text \<open>
  Claim C5. For any table name: when the read request is answered with a status outside
  400..599 and the body decodes to a row list, the extractor returns exactly that list;
  when the request raises a transport error (any \<^verbatim>\<open>RequestException\<close>) or is answered with
  an error status, it returns the empty list and raises nothing; a 500 answer in
  particular gives the empty list.
\<close>

theorem extractor_rows_or_empty:
  "(net (reqs w) (select_all_request project_url anon_key table_name) = Return resp \<and>
      \<not> (400 \<le> status_code resp \<and> status_code resp < 600) \<and> resp_json resp = Inr rows
    \<longrightarrow> fst (get_data_from_table net project_url anon_key table_name w) = Inr rows) \<and>
   (net (reqs w) (select_all_request project_url anon_key table_name) = Raise e \<and>
      is_request_exception e
    \<longrightarrow> fst (get_data_from_table net project_url anon_key table_name w) = Inr []) \<and>
   (net (reqs w) (select_all_request project_url anon_key table_name) = Return resp \<and>
      400 \<le> status_code resp \<and> status_code resp < 600
    \<longrightarrow> fst (get_data_from_table net project_url anon_key table_name w) = Inr []) \<and>
   (net (reqs w) (select_all_request project_url anon_key table_name) = Return resp \<and>
      status_code resp = 500
    \<longrightarrow> fst (get_data_from_table net project_url anon_key table_name w) = Inr [])"
  by (simp add: get_data_from_table_def select_all_request_def send_def raise_for_status_def
      Let_def)

theorem extractor_rows_or_empty_witness:
  "fst (get_data_from_table
          (\<lambda>h rq. Return \<lparr>status_code = 200, resp_text = ''ok'',
                            resp_json = Inr [[(''name'', JStr ''Tom'')]]\<rparr>)
          ''https://old'' ''key'' ''cat_name_options'' \<lparr>reqs = [], out = []\<rparr>)
     = Inr [[(''name'', JStr ''Tom'')]] \<and>
   fst (get_data_from_table
          (\<lambda>h rq. Return \<lparr>status_code = 500, resp_text = ''down'',
                            resp_json = Inr [[(''name'', JStr ''Tom'')]]\<rparr>)
          ''https://old'' ''key'' ''cat_name_options'' \<lparr>reqs = [], out = []\<rparr>)
     = Inr [] \<and>
   fst (get_data_from_table (\<lambda>h rq. Raise (RequestError ''timed out'' None))
          ''https://old'' ''key'' ''cat_name_options'' \<lparr>reqs = [], out = []\<rparr>)
     = Inr []"
  using
    extractor_rows_or_empty
      [of "\<lambda>h rq. Return \<lparr>status_code = 200, resp_text = ''ok'',
                            resp_json = Inr [[(''name'', JStr ''Tom'')]]\<rparr>"
          "\<lparr>reqs = [], out = []\<rparr>" "''https://old''" "''key''" "''cat_name_options''"
          "\<lparr>status_code = 200, resp_text = ''ok'',
            resp_json = Inr [[(''name'', JStr ''Tom'')]]\<rparr>" "[[(''name'', JStr ''Tom'')]]"]
    extractor_rows_or_empty
      [of "\<lambda>h rq. Return \<lparr>status_code = 500, resp_text = ''down'',
                            resp_json = Inr [[(''name'', JStr ''Tom'')]]\<rparr>"
          "\<lparr>reqs = [], out = []\<rparr>" "''https://old''" "''key''" "''cat_name_options''"
          "\<lparr>status_code = 500, resp_text = ''down'',
            resp_json = Inr [[(''name'', JStr ''Tom'')]]\<rparr>"]
    extractor_rows_or_empty
      [of "\<lambda>h rq. Raise (RequestError ''timed out'' None)"
          "\<lparr>reqs = [], out = []\<rparr>" "''https://old''" "''key''" "''cat_name_options''"
          _ _ "RequestError ''timed out'' None"]
  by simp


section \<open>The loader, batch by batch\<close>

lemma chunks_concat: "0 < n \<Longrightarrow> concat (chunks n xs) = xs"
proof (induction n xs rule: chunks.induct)
  case (1 n xs)
  then show ?case by (subst chunks.simps) simp
qed

lemma chunks_bounds: "b \<in> set (chunks n xs) \<Longrightarrow> b \<noteq> [] \<and> length b \<le> n"
proof (induction n xs rule: chunks.induct)
  case (1 n xs)
  from "1.prems" have ne: "\<not> (n = 0 \<or> xs = [])"
    by (subst (asm) chunks.simps) (simp split: if_splits)
  with "1.prems" have "b = take n xs \<or> b \<in> set (chunks n (drop n xs))"
    by (subst (asm) chunks.simps) simp
  then show ?case
  proof
    assume "b = take n xs"
    with ne show ?thesis by simp
  next
    assume "b \<in> set (chunks n (drop n xs))"
    with "1.IH" ne show ?thesis by blast
  qed
qed

lemma chunks_120: "length xs = 120 \<Longrightarrow> map length (chunks 50 xs) = [50, 50, 20]"
proof -
  assume len: "length xs = 120"
  then have a: "xs \<noteq> []" "drop 50 xs \<noteq> []" "drop 50 (drop 50 xs) \<noteq> []"
    "drop 50 (drop 50 (drop 50 xs)) = []"
    by auto
  have "chunks 50 xs = [take 50 xs, take 50 (drop 50 xs), take 50 (drop 50 (drop 50 xs))]"
    using a
    by (subst chunks.simps, simp, subst chunks.simps, simp, subst chunks.simps, simp,
        subst chunks.simps, simp)
  with len show ?thesis by simp
qed

lemma range_slices_are_chunks:
  "0 < n \<Longrightarrow> map (\<lambda>i. slice xs i (i + n)) (py_range i (length xs) n) = chunks n (drop i xs)"
proof (induction i "length xs" n rule: py_range.induct)
  case (1 start step)
  show ?case
  proof (cases "start < length xs")
    case True
    with 1 show ?thesis
      by (subst py_range.simps, subst chunks.simps) (simp add: slice_def add.commute)
  next
    case False
    then show ?thesis
      by (subst py_range.simps, subst chunks.simps) simp
  qed
qed


lemma succeeds_thrown: "succeeds x \<longleftrightarrow> thrown x = None"
  by (cases x) (simp_all add: raise_for_status_def)

lemma fails_thrown: "fails x \<longleftrightarrow> (\<exists>e. thrown x = Some e \<and> is_request_exception e)"
  by (cases x) (auto simp add: raise_for_status_def)

lemma insert_batches_step:
  "insert_batches net url headers table_name data (i # rest) w =
     (case thrown (net (reqs w) (post_request url headers (slice data i (i + batch_size)))) of
        Some e \<Rightarrow>
          (Inl e, w\<lparr>reqs := reqs w @ [post_request url headers (slice data i (i + batch_size))]\<rparr>)
      | None \<Rightarrow>
          insert_batches net url headers table_name data rest
            (say (InsertedBatch (i div batch_size + 1) table_name
                    (length (slice data i (i + batch_size))))
               (w\<lparr>reqs := reqs w @ [post_request url headers (slice data i (i + batch_size))]\<rparr>)))"
  by (simp add: send_def Let_def post_request_def split: http_result.splits option.splits)

declare insert_batches.simps(2) [simp del]

lemma insert_batches_all_succeed:
  assumes "\<forall>j<length idxs. succeeds (net
             (reqs w @ take j (map (\<lambda>i. post_request url headers (slice data i (i + batch_size))) idxs))
             (map (\<lambda>i. post_request url headers (slice data i (i + batch_size))) idxs ! j))"
  shows "fst (insert_batches net url headers table_name data idxs w) = Inr () \<and>
         reqs (snd (insert_batches net url headers table_name data idxs w)) =
           reqs w @ map (\<lambda>i. post_request url headers (slice data i (i + batch_size))) idxs"
  using assms
proof (induction idxs arbitrary: w)
  case Nil
  then show ?case by simp
next
  case (Cons i rest)
  let ?p = "post_request url headers (slice data i (i + batch_size))"
  let ?ps = "map (\<lambda>i. post_request url headers (slice data i (i + batch_size))) rest"
  let ?w1 = "say (InsertedBatch (i div batch_size + 1) table_name
                    (length (slice data i (i + batch_size))))
               (w\<lparr>reqs := reqs w @ [?p]\<rparr>)"
  from Cons.prems [rule_format, of 0] have first: "thrown (net (reqs w) ?p) = None"
    by (simp add: succeeds_thrown)
  have later: "\<forall>j<length rest. succeeds (net (reqs ?w1 @ take j ?ps) (?ps ! j))"
  proof (intro allI impI)
    fix j assume "j < length rest"
    with Cons.prems [rule_format, of "Suc j"] show "succeeds (net (reqs ?w1 @ take j ?ps) (?ps ! j))"
      by simp
  qed
  from Cons.IH [OF later] first show ?case
    by (simp add: insert_batches_step)
qed

lemma insert_batches_first_failure:
  assumes "k < length idxs"
    and "\<forall>j<k. succeeds (net
             (reqs w @ take j (map (\<lambda>i. post_request url headers (slice data i (i + batch_size))) idxs))
             (map (\<lambda>i. post_request url headers (slice data i (i + batch_size))) idxs ! j))"
    and "thrown (net
             (reqs w @ take k (map (\<lambda>i. post_request url headers (slice data i (i + batch_size))) idxs))
             (map (\<lambda>i. post_request url headers (slice data i (i + batch_size))) idxs ! k)) = Some e"
  shows "fst (insert_batches net url headers table_name data idxs w) = Inl e \<and>
         reqs (snd (insert_batches net url headers table_name data idxs w)) =
           reqs w @ take (Suc k)
             (map (\<lambda>i. post_request url headers (slice data i (i + batch_size))) idxs)"
  using assms
proof (induction idxs arbitrary: w k)
  case Nil
  then show ?case by simp
next
  case (Cons i rest)
  let ?p = "post_request url headers (slice data i (i + batch_size))"
  let ?ps = "map (\<lambda>i. post_request url headers (slice data i (i + batch_size))) rest"
  let ?w1 = "say (InsertedBatch (i div batch_size + 1) table_name
                    (length (slice data i (i + batch_size))))
               (w\<lparr>reqs := reqs w @ [?p]\<rparr>)"
  show ?case
  proof (cases k)
    case 0
    with Cons.prems(3) show ?thesis
      by (simp add: insert_batches_step)
  next
    case (Suc k')
    with Cons.prems(1) have k': "k' < length rest" by simp
    from Cons.prems(2) [rule_format, of 0] Suc have first: "thrown (net (reqs w) ?p) = None"
      by (simp add: succeeds_thrown)
    have later: "\<forall>j<k'. succeeds (net (reqs ?w1 @ take j ?ps) (?ps ! j))"
    proof (intro allI impI)
      fix j assume "j < k'"
      with Cons.prems(2) [rule_format, of "Suc j"] Suc
      show "succeeds (net (reqs ?w1 @ take j ?ps) (?ps ! j))"
        by simp
    qed
    from Cons.prems(3) Suc have fail: "thrown (net (reqs ?w1 @ take k' ?ps) (?ps ! k')) = Some e"
      by simp
    from Cons.IH [OF k' later fail] first Suc show ?thesis
      by (simp add: insert_batches_step)
  qed
qed


lemma loader_posts:
  "map (\<lambda>i. post_request (project_url @ ''/rest/v1/'' @ table_name)
               [(''apikey'', anon_key),
                (''Authorization'', ''Bearer '' @ anon_key),
                (''Content-Type'', ''application/json''),
                (''Prefer'', if use_upsert
                             then ''return=representation,resolution=merge-duplicates''
                             else ''return=representation'')]
               (slice data i (i + batch_size)))
       (py_range 0 (length data) batch_size) =
   map (write_request project_url anon_key table_name use_upsert) (chunks 50 data)"
proof -
  have "chunks 50 data = map (\<lambda>i. slice data i (i + 50)) (py_range 0 (length data) 50)"
    by (simp add: range_slices_are_chunks)
  then show ?thesis
    by (simp add: batch_size_def write_request_def comp_def)
qed

lemma insert_after_success:
  assumes "data \<noteq> []"
    and "insert_batches net (project_url @ ''/rest/v1/'' @ table_name)
             [(''apikey'', anon_key),
              (''Authorization'', ''Bearer '' @ anon_key),
              (''Content-Type'', ''application/json''),
              (''Prefer'', if use_upsert
                           then ''return=representation,resolution=merge-duplicates''
                           else ''return=representation'')]
             table_name data (py_range 0 (length data) batch_size) w = (Inr (), w')"
  shows "insert_data_to_table net project_url anon_key table_name data use_upsert w
           = (Inr True, w')"
  unfolding insert_data_to_table_def Let_def assms(2) using assms(1) by simp

lemma insert_after_failure:
  assumes "data \<noteq> []"
    and "insert_batches net (project_url @ ''/rest/v1/'' @ table_name)
             [(''apikey'', anon_key),
              (''Authorization'', ''Bearer '' @ anon_key),
              (''Content-Type'', ''application/json''),
              (''Prefer'', if use_upsert
                           then ''return=representation,resolution=merge-duplicates''
                           else ''return=representation'')]
             table_name data (py_range 0 (length data) batch_size) w = (Inl e, w')"
    and "is_request_exception e"
  shows "fst (insert_data_to_table net project_url anon_key table_name data use_upsert w)
           = Inr False \<and>
         reqs (snd (insert_data_to_table net project_url anon_key table_name data use_upsert w))
           = reqs w'"
  unfolding insert_data_to_table_def Let_def assms(2) using assms(1,3)
  by (simp split: option.splits)

lemma loader_all_succeed:
  assumes "data \<noteq> []"
    and "\<forall>j<length (chunks 50 data). succeeds (net
           (reqs w @ take j (map (write_request project_url anon_key table_name use_upsert)
                               (chunks 50 data)))
           (map (write_request project_url anon_key table_name use_upsert)
              (chunks 50 data) ! j))"
  shows "fst (insert_data_to_table net project_url anon_key table_name data use_upsert w)
           = Inr True \<and>
         reqs (snd (insert_data_to_table net project_url anon_key table_name data use_upsert w))
           = reqs w @ map (write_request project_url anon_key table_name use_upsert)
                        (chunks 50 data) \<and>
         concat (chunks 50 data) = data \<and>
         (\<forall>b\<in>set (chunks 50 data). b \<noteq> [] \<and> length b \<le> 50) \<and>
         (length data = 120 \<longrightarrow> map length (chunks 50 data) = [50, 50, 20])"
proof -
  let ?url = "project_url @ ''/rest/v1/'' @ table_name"
  let ?headers = "[(''apikey'', anon_key),
                   (''Authorization'', ''Bearer '' @ anon_key),
                   (''Content-Type'', ''application/json''),
                   (''Prefer'', if use_upsert
                                then ''return=representation,resolution=merge-duplicates''
                                else ''return=representation'')]"
  let ?idxs = "py_range 0 (length data) batch_size"
  have len: "length ?idxs = length (chunks 50 data)"
    using arg_cong [OF loader_posts, of length project_url table_name anon_key use_upsert data]
    by simp
  from assms(2) have "\<forall>j<length ?idxs. succeeds (net
      (reqs w @ take j (map (\<lambda>i. post_request ?url ?headers (slice data i (i + batch_size))) ?idxs))
      (map (\<lambda>i. post_request ?url ?headers (slice data i (i + batch_size))) ?idxs ! j))"
    unfolding loader_posts len .
  from insert_batches_all_succeed [OF this, of table_name]
  have ib: "fst (insert_batches net ?url ?headers table_name data ?idxs w) = Inr () \<and>
        reqs (snd (insert_batches net ?url ?headers table_name data ?idxs w)) =
          reqs w @ map (write_request project_url anon_key table_name use_upsert) (chunks 50 data)"
    unfolding loader_posts .
  obtain r w' where rw: "insert_batches net ?url ?headers table_name data ?idxs w = (r, w')"
    by (cases "insert_batches net ?url ?headers table_name data ?idxs w")
  with ib have "r = Inr ()"
    and w': "reqs w' = reqs w @ map (write_request project_url anon_key table_name use_upsert)
                                  (chunks 50 data)"
    by simp_all
  with rw have "insert_batches net ?url ?headers table_name data ?idxs w = (Inr (), w')"
    by simp
  from insert_after_success [OF assms(1) this] w'
  have sent: "fst (insert_data_to_table net project_url anon_key table_name data use_upsert w)
           = Inr True \<and>
         reqs (snd (insert_data_to_table net project_url anon_key table_name data use_upsert w))
           = reqs w @ map (write_request project_url anon_key table_name use_upsert)
                        (chunks 50 data)"
    by simp
  have "\<forall>b\<in>set (chunks 50 data). b \<noteq> [] \<and> length b \<le> 50"
    using chunks_bounds by blast
  with sent show ?thesis
    by (simp add: chunks_concat chunks_120)
qed

lemma py_range_nonempty: "data \<noteq> [] \<Longrightarrow> py_range 0 (length data) batch_size \<noteq> []"
  by (subst py_range.simps) (simp add: batch_size_def)

lemma insert_reqs:
  assumes "data \<noteq> []"
  shows "reqs (snd (insert_data_to_table net project_url anon_key table_name data use_upsert w)) =
         reqs (snd (insert_batches net (project_url @ ''/rest/v1/'' @ table_name)
             [(''apikey'', anon_key),
              (''Authorization'', ''Bearer '' @ anon_key),
              (''Content-Type'', ''application/json''),
              (''Prefer'', if use_upsert
                           then ''return=representation,resolution=merge-duplicates''
                           else ''return=representation'')]
             table_name data (py_range 0 (length data) batch_size) w))"
proof -
  let ?IB = "insert_batches net (project_url @ ''/rest/v1/'' @ table_name)
             [(''apikey'', anon_key),
              (''Authorization'', ''Bearer '' @ anon_key),
              (''Content-Type'', ''application/json''),
              (''Prefer'', if use_upsert
                           then ''return=representation,resolution=merge-duplicates''
                           else ''return=representation'')]
             table_name data (py_range 0 (length data) batch_size) w"
  obtain r w' where ib: "?IB = (r, w')" by (cases ?IB)
  show ?thesis
    unfolding insert_data_to_table_def Let_def ib using assms
    by (cases r) (simp_all split: option.splits)
qed

lemma insert_batches_prefix:
  "\<exists>n. n \<le> length idxs \<and> (idxs \<noteq> [] \<longrightarrow> 0 < n) \<and>
       reqs (snd (insert_batches net url headers table_name data idxs w)) =
         reqs w @ take n
           (map (\<lambda>i. post_request url headers (slice data i (i + batch_size))) idxs)"
proof (induction idxs arbitrary: w)
  case Nil
  then show ?case by simp
next
  case (Cons i rest)
  let ?p = "post_request url headers (slice data i (i + batch_size))"
  let ?ps = "map (\<lambda>i. post_request url headers (slice data i (i + batch_size))) rest"
  let ?w1 = "say (InsertedBatch (i div batch_size + 1) table_name
                    (length (slice data i (i + batch_size))))
               (w\<lparr>reqs := reqs w @ [?p]\<rparr>)"
  show ?case
  proof (cases "thrown (net (reqs w) ?p)")
    case None
    from Cons.IH [of ?w1] obtain n where
      n: "n \<le> length rest"
        "reqs (snd (insert_batches net url headers table_name data rest ?w1)) =
           reqs ?w1 @ take n ?ps"
      by blast
    from None n(2)
    have "reqs (snd (insert_batches net url headers table_name data (i # rest) w)) =
            reqs w @ take (Suc n) (?p # ?ps)"
      by (simp add: insert_batches_step)
    with n(1) show ?thesis
      by (intro exI [of _ "Suc n"]) simp
  next
    case (Some e)
    then have "reqs (snd (insert_batches net url headers table_name data (i # rest) w)) =
            reqs w @ take (Suc 0) (?p # ?ps)"
      by (simp add: insert_batches_step)
    then show ?thesis
      by (intro exI [of _ "Suc 0"]) simp
  qed
qed

text \<open>
  Claim C4. For a non-empty row list the loader partitions the rows into consecutive
  batches of 50: the requests it sends are always the write requests of the first \<open>n\<close>
  batches, in order, for some \<open>n\<close> of at least 1, and when every one of them succeeds it
  returns True having sent one request per batch. The batches concatenate to the input,
  none is empty or longer than 50, and 120 rows give batches of 50, 50 and 20.
\<close>

theorem loader_sends_batches_in_order:
  assumes "data \<noteq> []"
  shows "(\<exists>n. 0 < n \<and> n \<le> length (chunks 50 data) \<and>
            reqs (snd (insert_data_to_table net project_url anon_key table_name data
                         use_upsert w))
              = reqs w @ take n (map (write_request project_url anon_key table_name use_upsert)
                                   (chunks 50 data))) \<and>
         ((\<forall>j<length (chunks 50 data). succeeds (net
              (reqs w @ take j (map (write_request project_url anon_key table_name use_upsert)
                                  (chunks 50 data)))
              (map (write_request project_url anon_key table_name use_upsert)
                 (chunks 50 data) ! j))) \<longrightarrow>
          fst (insert_data_to_table net project_url anon_key table_name data use_upsert w)
            = Inr True \<and>
          reqs (snd (insert_data_to_table net project_url anon_key table_name data use_upsert w))
            = reqs w @ map (write_request project_url anon_key table_name use_upsert)
                         (chunks 50 data)) \<and>
         concat (chunks 50 data) = data \<and>
         (\<forall>b\<in>set (chunks 50 data). b \<noteq> [] \<and> length b \<le> 50) \<and>
         (length data = 120 \<longrightarrow> map length (chunks 50 data) = [50, 50, 20])"
proof -
  let ?url = "project_url @ ''/rest/v1/'' @ table_name"
  let ?headers = "[(''apikey'', anon_key),
                   (''Authorization'', ''Bearer '' @ anon_key),
                   (''Content-Type'', ''application/json''),
                   (''Prefer'', if use_upsert
                                then ''return=representation,resolution=merge-duplicates''
                                else ''return=representation'')]"
  let ?idxs = "py_range 0 (length data) batch_size"
  have len: "length ?idxs = length (chunks 50 data)"
    using arg_cong [OF loader_posts, of length project_url table_name anon_key use_upsert data]
    by simp
  from insert_batches_prefix [of ?idxs net ?url ?headers table_name data w]
    py_range_nonempty [OF assms]
  have prefix: "\<exists>n. 0 < n \<and> n \<le> length (chunks 50 data) \<and>
            reqs (snd (insert_data_to_table net project_url anon_key table_name data
                         use_upsert w))
              = reqs w @ take n (map (write_request project_url anon_key table_name use_upsert)
                                   (chunks 50 data))"
    unfolding insert_reqs [OF assms] loader_posts len by blast
  have all: "(\<forall>j<length (chunks 50 data). succeeds (net
              (reqs w @ take j (map (write_request project_url anon_key table_name use_upsert)
                                  (chunks 50 data)))
              (map (write_request project_url anon_key table_name use_upsert)
                 (chunks 50 data) ! j))) \<longrightarrow>
          fst (insert_data_to_table net project_url anon_key table_name data use_upsert w)
            = Inr True \<and>
          reqs (snd (insert_data_to_table net project_url anon_key table_name data use_upsert w))
            = reqs w @ map (write_request project_url anon_key table_name use_upsert)
                         (chunks 50 data)"
    using loader_all_succeed [OF assms, of net w project_url anon_key table_name use_upsert]
    by (intro impI) simp
  have parts: "concat (chunks 50 data) = data"
    "\<forall>b\<in>set (chunks 50 data). b \<noteq> [] \<and> length b \<le> 50"
    "length data = 120 \<longrightarrow> map length (chunks 50 data) = [50, 50, 20]"
    using chunks_bounds by (simp add: chunks_concat, blast, simp add: chunks_120)
  from prefix all parts show ?thesis
    by (intro conjI) assumption+
qed

text \<open>
  Claim C3. When the write request of batch \<open>k\<close> (counting from 0) is the first to fail, the
  loader returns False and has sent exactly the requests of batches 0 to \<open>k\<close>: no later
  batch is sent, and nothing is sent to undo the batches that succeeded. With three
  batches and the second failing, two requests are sent.
\<close>

theorem loader_stops_at_first_failure:
  assumes "k < length (chunks 50 data)"
    and "\<forall>j<k. succeeds (net
           (reqs w @ take j (map (write_request project_url anon_key table_name use_upsert)
                               (chunks 50 data)))
           (map (write_request project_url anon_key table_name use_upsert)
              (chunks 50 data) ! j))"
    and "fails (net
           (reqs w @ take k (map (write_request project_url anon_key table_name use_upsert)
                               (chunks 50 data)))
           (map (write_request project_url anon_key table_name use_upsert)
              (chunks 50 data) ! k))"
  shows "fst (insert_data_to_table net project_url anon_key table_name data use_upsert w)
           = Inr False \<and>
         reqs (snd (insert_data_to_table net project_url anon_key table_name data use_upsert w))
           = reqs w @ take (Suc k) (map (write_request project_url anon_key table_name use_upsert)
                                      (chunks 50 data)) \<and>
         length (reqs (snd (insert_data_to_table net project_url anon_key table_name data
                              use_upsert w)))
           = length (reqs w) + Suc k"
proof -
  let ?url = "project_url @ ''/rest/v1/'' @ table_name"
  let ?headers = "[(''apikey'', anon_key),
                   (''Authorization'', ''Bearer '' @ anon_key),
                   (''Content-Type'', ''application/json''),
                   (''Prefer'', if use_upsert
                                then ''return=representation,resolution=merge-duplicates''
                                else ''return=representation'')]"
  let ?idxs = "py_range 0 (length data) batch_size"
  from assms(1) have ne: "data \<noteq> []"
    by (subst (asm) chunks.simps) (simp split: if_splits)
  have len: "length ?idxs = length (chunks 50 data)"
    using arg_cong [OF loader_posts, of length project_url table_name anon_key use_upsert data]
    by simp
  from assms(3) obtain e where e: "thrown (net
           (reqs w @ take k (map (write_request project_url anon_key table_name use_upsert)
                               (chunks 50 data)))
           (map (write_request project_url anon_key table_name use_upsert)
              (chunks 50 data) ! k)) = Some e" and caught: "is_request_exception e"
    by (auto simp add: fails_thrown)
  have k: "k < length ?idxs" using assms(1) len by simp
  have before: "\<forall>j<k. succeeds (net
      (reqs w @ take j (map (\<lambda>i. post_request ?url ?headers (slice data i (i + batch_size))) ?idxs))
      (map (\<lambda>i. post_request ?url ?headers (slice data i (i + batch_size))) ?idxs ! j))"
    using assms(2) unfolding loader_posts .
  have at: "thrown (net
      (reqs w @ take k (map (\<lambda>i. post_request ?url ?headers (slice data i (i + batch_size))) ?idxs))
      (map (\<lambda>i. post_request ?url ?headers (slice data i (i + batch_size))) ?idxs ! k)) = Some e"
    using e unfolding loader_posts .
  from insert_batches_first_failure [OF k before at, of table_name]
  have ib: "fst (insert_batches net ?url ?headers table_name data ?idxs w) = Inl e \<and>
        reqs (snd (insert_batches net ?url ?headers table_name data ?idxs w)) =
          reqs w @ take (Suc k) (map (write_request project_url anon_key table_name use_upsert)
                                   (chunks 50 data))"
    unfolding loader_posts .
  obtain r w' where rw: "insert_batches net ?url ?headers table_name data ?idxs w = (r, w')"
    by (cases "insert_batches net ?url ?headers table_name data ?idxs w")
  with ib have "r = Inl e"
    and w': "reqs w' = reqs w @ take (Suc k)
               (map (write_request project_url anon_key table_name use_upsert) (chunks 50 data))"
    by simp_all
  with rw have "insert_batches net ?url ?headers table_name data ?idxs w = (Inl e, w')"
    by simp
  from insert_after_failure [OF ne this caught] w'
  have "fst (insert_data_to_table net project_url anon_key table_name data use_upsert w)
           = Inr False \<and>
         reqs (snd (insert_data_to_table net project_url anon_key table_name data use_upsert w))
           = reqs w @ take (Suc k) (map (write_request project_url anon_key table_name use_upsert)
                                      (chunks 50 data))"
    by simp
  with assms(1) show ?thesis
    by simp
qed


lemma chunks_replicate_120:
  "chunks 50 (replicate 120 r) = [replicate 50 r, replicate 50 r, replicate 20 r]"
  by (subst chunks.simps, simp, subst chunks.simps, simp, subst chunks.simps, simp,
      subst chunks.simps, simp)

theorem loader_sends_batches_in_order_witness:
  "fst (insert_data_to_table
          (\<lambda>h rq. Return \<lparr>status_code = 201, resp_text = ''created'', resp_json = Inr []\<rparr>)
          ''https://new'' ''key'' ''cat_app_users''
          (replicate 120 [(''user_name'', JStr ''a'')]) False \<lparr>reqs = [], out = []\<rparr>)
     = Inr True \<and>
   map req_json (reqs (snd (insert_data_to_table
          (\<lambda>h rq. Return \<lparr>status_code = 201, resp_text = ''created'', resp_json = Inr []\<rparr>)
          ''https://new'' ''key'' ''cat_app_users''
          (replicate 120 [(''user_name'', JStr ''a'')]) False \<lparr>reqs = [], out = []\<rparr>)))
     = [Some (replicate 50 [(''user_name'', JStr ''a'')]),
        Some (replicate 50 [(''user_name'', JStr ''a'')]),
        Some (replicate 20 [(''user_name'', JStr ''a'')])]"
  using loader_sends_batches_in_order
    [where data = "replicate 120 [(''user_name'', JStr ''a'')]"
       and net = "\<lambda>h rq. Return \<lparr>status_code = 201, resp_text = ''created'',
                                    resp_json = Inr []\<rparr>"
       and w = "\<lparr>reqs = [], out = []\<rparr>" and project_url = "''https://new''"
       and anon_key = "''key''" and table_name = "''cat_app_users''" and use_upsert = False]
  by (simp add: chunks_replicate_120 write_request_def post_request_def)

theorem loader_stops_at_first_failure_witness:
  "fst (insert_data_to_table
          (\<lambda>h rq. if length h = 1
                   then Return \<lparr>status_code = 500, resp_text = ''down'', resp_json = Inr []\<rparr>
                   else Return \<lparr>status_code = 201, resp_text = ''created'', resp_json = Inr []\<rparr>)
          ''https://new'' ''key'' ''cat_app_users''
          (replicate 120 [(''user_name'', JStr ''a'')]) False \<lparr>reqs = [], out = []\<rparr>)
     = Inr False \<and>
   length (reqs (snd (insert_data_to_table
          (\<lambda>h rq. if length h = 1
                   then Return \<lparr>status_code = 500, resp_text = ''down'', resp_json = Inr []\<rparr>
                   else Return \<lparr>status_code = 201, resp_text = ''created'', resp_json = Inr []\<rparr>)
          ''https://new'' ''key'' ''cat_app_users''
          (replicate 120 [(''user_name'', JStr ''a'')]) False \<lparr>reqs = [], out = []\<rparr>)))
     = 2"
  using loader_stops_at_first_failure
    [where k = 1 and data = "replicate 120 [(''user_name'', JStr ''a'')]"
       and net = "\<lambda>h rq. if length h = 1
                   then Return \<lparr>status_code = 500, resp_text = ''down'', resp_json = Inr []\<rparr>
                   else Return \<lparr>status_code = 201, resp_text = ''created'', resp_json = Inr []\<rparr>"
       and w = "\<lparr>reqs = [], out = []\<rparr>" and project_url = "''https://new''"
       and anon_key = "''key''" and table_name = "''cat_app_users''" and use_upsert = False]
  by (simp add: chunks_replicate_120)

section \<open>The orchestrator\<close>

lemma get_reqs:
  "reqs (snd (get_data_from_table net project_url anon_key table_name w)) =
     reqs w @ [select_all_request project_url anon_key table_name]"
  by (simp add: get_data_from_table_def select_all_request_def send_def Let_def
      split: http_result.splits option.splits sum.splits)

lemma get_never_raises:
  assumes "\<forall>h rq. catchable (net h rq)"
  shows "\<exists>rows. fst (get_data_from_table net project_url anon_key table_name w) = Inr rows"
proof -
  let ?rq = "\<lparr>req_method = GET,
              req_url = project_url @ ''/rest/v1/'' @ table_name @ ''?select=*'',
              req_headers = [(''apikey'', anon_key),
                             (''Authorization'', ''Bearer '' @ anon_key),
                             (''Content-Type'', ''application/json''),
                             (''Prefer'', ''return=representation'')],
              req_json = None\<rparr>"
  from assms have c: "catchable (net (reqs w) ?rq)" by blast
  show ?thesis
  proof (cases "net (reqs w) ?rq")
    case (Raise e)
    with c show ?thesis
      by (simp add: get_data_from_table_def send_def Let_def)
  next
    case (Return r)
    with c show ?thesis
      by (cases "resp_json r")
         (simp_all add: get_data_from_table_def send_def Let_def raise_for_status_def)
  qed
qed

lemma get_indep:
  "reqs w1 = reqs w2 \<Longrightarrow>
   fst (get_data_from_table net project_url anon_key table_name w1) =
   fst (get_data_from_table net project_url anon_key table_name w2)"
  by (simp add: get_data_from_table_def send_def Let_def
      split: http_result.splits option.splits sum.splits)

lemma insert_batches_sends:
  "\<exists>ps. reqs (snd (insert_batches net url headers table_name data idxs w)) = reqs w @ ps \<and>
        (\<forall>r\<in>set ps. req_method r = POST \<and> req_url r = url) \<and>
        (idxs \<noteq> [] \<longrightarrow> ps \<noteq> [])"
proof (induction idxs arbitrary: w)
  case Nil
  then show ?case by simp
next
  case (Cons i rest)
  let ?p = "post_request url headers (slice data i (i + batch_size))"
  let ?w1 = "say (InsertedBatch (i div batch_size + 1) table_name
                    (length (slice data i (i + batch_size))))
               (w\<lparr>reqs := reqs w @ [?p]\<rparr>)"
  show ?case
  proof (cases "thrown (net (reqs w) ?p)")
    case None
    from Cons.IH [of ?w1] obtain ps where
      ps: "reqs (snd (insert_batches net url headers table_name data rest ?w1)) = reqs ?w1 @ ps"
        "\<forall>r\<in>set ps. req_method r = POST \<and> req_url r = url"
      by blast
    have "reqs (snd (insert_batches net url headers table_name data (i # rest) w)) =
            reqs w @ (?p # ps)"
      using None ps(1) by (simp add: insert_batches_step)
    moreover have "\<forall>r\<in>set (?p # ps). req_method r = POST \<and> req_url r = url"
      using ps(2) by (simp add: post_request_def)
    ultimately show ?thesis by blast
  next
    case (Some e)
    have "reqs (snd (insert_batches net url headers table_name data (i # rest) w)) =
            reqs w @ [?p]"
      using Some by (simp add: insert_batches_step)
    moreover have "\<forall>r\<in>set [?p]. req_method r = POST \<and> req_url r = url"
      by (simp add: post_request_def)
    ultimately show ?thesis by blast
  qed
qed

lemma thrown_catchable: "catchable x \<Longrightarrow> thrown x = Some e \<Longrightarrow> is_request_exception e"
  by (cases x) (auto simp add: raise_for_status_def split: if_splits)

lemma insert_batches_raises_caught:
  assumes "\<forall>h rq. catchable (net h rq)"
  shows "fst (insert_batches net url headers table_name data idxs w) = Inl e
           \<Longrightarrow> is_request_exception e"
proof (induction idxs arbitrary: w)
  case Nil
  then show ?case by simp
next
  case (Cons i rest)
  let ?p = "post_request url headers (slice data i (i + batch_size))"
  show ?case
  proof (cases "thrown (net (reqs w) ?p)")
    case None
    with Cons.prems Cons.IH show ?thesis
      by (simp add: insert_batches_step)
  next
    case (Some e')
    with Cons.prems have "e' = e" by (simp add: insert_batches_step)
    with Some assms thrown_catchable show ?thesis by blast
  qed
qed

lemma insert_batches_indep:
  "reqs w1 = reqs w2 \<Longrightarrow>
   fst (insert_batches net url headers table_name data idxs w1) =
     fst (insert_batches net url headers table_name data idxs w2) \<and>
   reqs (snd (insert_batches net url headers table_name data idxs w1)) =
     reqs (snd (insert_batches net url headers table_name data idxs w2))"
proof (induction idxs arbitrary: w1 w2)
  case Nil
  then show ?case by simp
next
  case (Cons i rest)
  let ?p = "post_request url headers (slice data i (i + batch_size))"
  let ?m = "InsertedBatch (i div batch_size + 1) table_name
              (length (slice data i (i + batch_size)))"
  have "reqs (say ?m (w1\<lparr>reqs := reqs w1 @ [?p]\<rparr>)) = reqs (say ?m (w2\<lparr>reqs := reqs w2 @ [?p]\<rparr>))"
    using Cons.prems by simp
  from Cons.IH [OF this] Cons.prems show ?case
    by (cases "thrown (net (reqs w2) ?p)") (simp_all add: insert_batches_step)
qed


lemma insert_fst:
  assumes "data \<noteq> []"
  shows "fst (insert_data_to_table net project_url anon_key table_name data use_upsert w) =
         (case fst (insert_batches net (project_url @ ''/rest/v1/'' @ table_name)
             [(''apikey'', anon_key),
              (''Authorization'', ''Bearer '' @ anon_key),
              (''Content-Type'', ''application/json''),
              (''Prefer'', if use_upsert
                           then ''return=representation,resolution=merge-duplicates''
                           else ''return=representation'')]
             table_name data (py_range 0 (length data) batch_size) w) of
            Inr u \<Rightarrow> Inr True
          | Inl e \<Rightarrow> if is_request_exception e then Inr False else Inl e)"
proof -
  let ?IB = "insert_batches net (project_url @ ''/rest/v1/'' @ table_name)
             [(''apikey'', anon_key),
              (''Authorization'', ''Bearer '' @ anon_key),
              (''Content-Type'', ''application/json''),
              (''Prefer'', if use_upsert
                           then ''return=representation,resolution=merge-duplicates''
                           else ''return=representation'')]
             table_name data (py_range 0 (length data) batch_size) w"
  obtain r w' where ib: "?IB = (r, w')" by (cases ?IB)
  show ?thesis
    unfolding insert_data_to_table_def Let_def ib using assms
    by (cases r) simp_all
qed

lemma insert_sends:
  "\<exists>ps. reqs (snd (insert_data_to_table net project_url anon_key table_name data use_upsert w))
          = reqs w @ ps \<and>
        (\<forall>r\<in>set ps. req_method r = POST \<and>
                      req_url r = project_url @ ''/rest/v1/'' @ table_name) \<and>
        (data \<noteq> [] \<longrightarrow> ps \<noteq> [])"
proof (cases "data = []")
  case True
  then show ?thesis by (simp add: insert_data_to_table_def)
next
  case False
  show ?thesis
    unfolding insert_reqs [OF False]
    using insert_batches_sends [of net "project_url @ ''/rest/v1/'' @ table_name" _ table_name
        data "py_range 0 (length data) batch_size" w] py_range_nonempty [OF False]
    by blast
qed

lemma insert_never_raises:
  assumes "\<forall>h rq. catchable (net h rq)"
  shows "\<exists>b. fst (insert_data_to_table net project_url anon_key table_name data use_upsert w)
           = Inr b"
proof (cases "data = []")
  case True
  then show ?thesis by (auto simp add: insert_data_to_table_def)
next
  case False
  show ?thesis
    unfolding insert_fst [OF False]
    using insert_batches_raises_caught [OF assms]
    by (auto split: sum.splits)
qed

lemma insert_indep:
  assumes "reqs w1 = reqs w2"
  shows "fst (insert_data_to_table net project_url anon_key table_name data use_upsert w1) =
           fst (insert_data_to_table net project_url anon_key table_name data use_upsert w2) \<and>
         reqs (snd (insert_data_to_table net project_url anon_key table_name data use_upsert w1)) =
           reqs (snd (insert_data_to_table net project_url anon_key table_name data use_upsert w2))"
proof (cases "data = []")
  case True
  with assms show ?thesis by (simp add: insert_data_to_table_def)
next
  case False
  show ?thesis
    unfolding insert_reqs [OF False] insert_fst [OF False]
    using insert_batches_indep [OF assms] by simp
qed


lemma migrate_table_fst:
  "fst (migrate_table net ok nk (t, dn, f, u) w) =
     (case fst (get_data_from_table net OLD_SUPABASE_URL ok t (say (Extracting dn) w)) of
        Inl e \<Rightarrow> Inl e
      | Inr data \<Rightarrow>
          if data = [] then Inr ()
          else (case fst (insert_data_to_table net NEW_SUPABASE_URL nk t (f data) u
                      (say (Inserting dn) (say (Transforming dn)
                         (say (Extracted (length data) dn)
                            (snd (get_data_from_table net OLD_SUPABASE_URL ok t
                                    (say (Extracting dn) w))))))) of
                  Inl e \<Rightarrow> Inl e
                | Inr b \<Rightarrow> Inr ()))"
  by (simp add: Let_def split: prod.splits sum.splits)

lemma migrate_table_reqs:
  "reqs (snd (migrate_table net ok nk (t, dn, f, u) w)) =
     (case fst (get_data_from_table net OLD_SUPABASE_URL ok t (say (Extracting dn) w)) of
        Inl e \<Rightarrow> reqs w @ [select_all_request OLD_SUPABASE_URL ok t]
      | Inr data \<Rightarrow>
          if data = [] then reqs w @ [select_all_request OLD_SUPABASE_URL ok t]
          else reqs (snd (insert_data_to_table net NEW_SUPABASE_URL nk t (f data) u
                      (say (Inserting dn) (say (Transforming dn)
                         (say (Extracted (length data) dn)
                            (snd (get_data_from_table net OLD_SUPABASE_URL ok t
                                    (say (Extracting dn) w)))))))))"
proof -
  let ?G = "get_data_from_table net OLD_SUPABASE_URL ok t (say (Extracting dn) w)"
  obtain rg wg where g: "?G = (rg, wg)" by (cases ?G)
  from get_reqs [of net OLD_SUPABASE_URL ok t "say (Extracting dn) w"] g
  have wg: "reqs wg = reqs w @ [select_all_request OLD_SUPABASE_URL ok t]" by simp
  show ?thesis
    unfolding g using wg
    by (simp add: g Let_def split: prod.splits sum.splits)
qed

declare migrate_table.simps [simp del]

lemma get_say: 
  "fst (get_data_from_table net project_url anon_key table_name (say m w)) =
   fst (get_data_from_table net project_url anon_key table_name w)"
  by (rule get_indep) simp

lemma migrate_table_sends:
  "\<exists>ps. reqs (snd (migrate_table net ok nk (t, dn, f, u) w)) =
          reqs w @ select_all_request OLD_SUPABASE_URL ok t # ps \<and>
        (\<forall>r\<in>set ps. is_write_to t r) \<and>
        (fst (get_data_from_table net OLD_SUPABASE_URL ok t w) = Inr [] \<longrightarrow> ps = []) \<and>
        (\<forall>data. fst (get_data_from_table net OLD_SUPABASE_URL ok t w) = Inr data \<and>
                data \<noteq> [] \<and> f data \<noteq> [] \<longrightarrow> ps \<noteq> [])"
proof (cases "fst (get_data_from_table net OLD_SUPABASE_URL ok t w)")
  case (Inl e)
  then have "reqs (snd (migrate_table net ok nk (t, dn, f, u) w)) =
          reqs w @ select_all_request OLD_SUPABASE_URL ok t # []"
    by (simp add: migrate_table_reqs get_say)
  with Inl show ?thesis by (intro exI [of _ "[]"]) simp
next
  case (Inr data)
  show ?thesis
  proof (cases "data = []")
    case True
    with Inr have "reqs (snd (migrate_table net ok nk (t, dn, f, u) w)) =
          reqs w @ select_all_request OLD_SUPABASE_URL ok t # []"
      by (simp add: migrate_table_reqs get_say)
    with Inr True show ?thesis by (intro exI [of _ "[]"]) simp
  next
    case False
    let ?w4 = "say (Inserting dn) (say (Transforming dn) (say (Extracted (length data) dn)
                 (snd (get_data_from_table net OLD_SUPABASE_URL ok t (say (Extracting dn) w)))))"
    have w4: "reqs ?w4 = reqs w @ [select_all_request OLD_SUPABASE_URL ok t]"
      by (simp add: get_reqs)
    from insert_sends [of net NEW_SUPABASE_URL nk t "f data" u ?w4] obtain ps where
      ps: "reqs (snd (insert_data_to_table net NEW_SUPABASE_URL nk t (f data) u ?w4)) =
             reqs ?w4 @ ps"
        "\<forall>r\<in>set ps. req_method r = POST \<and> req_url r = NEW_SUPABASE_URL @ ''/rest/v1/'' @ t"
        "f data \<noteq> [] \<longrightarrow> ps \<noteq> []"
      by blast
    from Inr False ps(1) w4
    have "reqs (snd (migrate_table net ok nk (t, dn, f, u) w)) =
          reqs w @ select_all_request OLD_SUPABASE_URL ok t # ps"
      by (simp add: migrate_table_reqs get_say)
    moreover from ps(2) have "\<forall>r\<in>set ps. is_write_to t r"
      by (simp add: is_write_to_def)
    ultimately show ?thesis using Inr False ps(3)
      by (intro exI [of _ ps]) simp
  qed
qed

lemma migrate_table_never_raises:
  assumes "\<forall>h rq. catchable (net h rq)"
  shows "fst (migrate_table net ok nk (t, dn, f, u) w) = Inr ()"
proof -
  from get_never_raises [OF assms] obtain rows where
    "fst (get_data_from_table net OLD_SUPABASE_URL ok t (say (Extracting dn) w)) = Inr rows"
    by blast
  moreover from insert_never_raises [OF assms] obtain b where
    "fst (insert_data_to_table net NEW_SUPABASE_URL nk t (f rows) u
            (say (Inserting dn) (say (Transforming dn) (say (Extracted (length rows) dn)
               (snd (get_data_from_table net OLD_SUPABASE_URL ok t
                       (say (Extracting dn) w))))))) = Inr b"
    by blast
  ultimately show ?thesis
    by (simp add: migrate_table_fst)
qed

lemma migrate_table_indep:
  assumes "reqs w1 = reqs w2"
  shows "fst (migrate_table net ok nk (t, dn1, f, u) w1) =
           fst (migrate_table net ok nk (t, dn2, f, u) w2) \<and>
         reqs (snd (migrate_table net ok nk (t, dn1, f, u) w1)) =
           reqs (snd (migrate_table net ok nk (t, dn2, f, u) w2))"
proof -
  let ?G1 = "get_data_from_table net OLD_SUPABASE_URL ok t (say (Extracting dn1) w1)"
  let ?G2 = "get_data_from_table net OLD_SUPABASE_URL ok t (say (Extracting dn2) w2)"
  have g: "fst ?G1 = fst ?G2"
    by (rule get_indep) (simp add: assms)
  have ins: "fst (insert_data_to_table net NEW_SUPABASE_URL nk t (f data) u
                (say (Inserting dn1) (say (Transforming dn1)
                   (say (Extracted (length data) dn1) (snd ?G1))))) =
             fst (insert_data_to_table net NEW_SUPABASE_URL nk t (f data) u
                (say (Inserting dn2) (say (Transforming dn2)
                   (say (Extracted (length data) dn2) (snd ?G2))))) \<and>
             reqs (snd (insert_data_to_table net NEW_SUPABASE_URL nk t (f data) u
                (say (Inserting dn1) (say (Transforming dn1)
                   (say (Extracted (length data) dn1) (snd ?G1)))))) =
             reqs (snd (insert_data_to_table net NEW_SUPABASE_URL nk t (f data) u
                (say (Inserting dn2) (say (Transforming dn2)
                   (say (Extracted (length data) dn2) (snd ?G2))))))" for data
    by (rule insert_indep) (simp add: get_reqs assms)
  show ?thesis
    unfolding migrate_table_fst migrate_table_reqs g
    using ins assms by (simp split: sum.splits)
qed


lemma select_is_get [simp]: "req_method (select_all_request project_url anon_key t) = GET"
  by (simp add: select_all_request_def)

lemma write_is_post: "is_write_to t r \<Longrightarrow> req_method r = POST"
  by (simp add: is_write_to_def)

lemma write_to_one_table: "is_write_to t r \<Longrightarrow> is_write_to t' r \<Longrightarrow> t = t'"
  by (simp add: is_write_to_def)

lemma select_not_write [simp]: "\<not> is_write_to t (select_all_request project_url anon_key t')"
  by (simp add: is_write_to_def)

lemma migrate_tables_never_raises:
  assumes "\<forall>h rq. catchable (net h rq)"
  shows "fst (migrate_tables net ok nk ds w) = Inr ()"
proof (induction ds arbitrary: w)
  case Nil
  show ?case by simp
next
  case (Cons d rest)
  obtain t dn f u where d: "d = (t, dn, f, u)" by (cases d)
  obtain r1 w1 where mt: "migrate_table net ok nk (t, dn, f, u) w = (r1, w1)"
    by (cases "migrate_table net ok nk (t, dn, f, u) w")
  with migrate_table_never_raises [OF assms, of ok nk t dn f u w] have "r1 = Inr ()" by simp
  with mt d Cons.IH [of w1] show ?case by simp
qed

lemma migrate_tables_gets:
  assumes "\<forall>h rq. catchable (net h rq)"
  shows "filter (\<lambda>r. req_method r = GET) (reqs (snd (migrate_tables net ok nk ds w))) =
         filter (\<lambda>r. req_method r = GET) (reqs w) @
           map (\<lambda>d. select_all_request OLD_SUPABASE_URL ok (fst d)) ds"
proof (induction ds arbitrary: w)
  case Nil
  show ?case by simp
next
  case (Cons d rest)
  obtain t dn f u where d: "d = (t, dn, f, u)" by (cases d)
  obtain r1 w1 where mt: "migrate_table net ok nk (t, dn, f, u) w = (r1, w1)"
    by (cases "migrate_table net ok nk (t, dn, f, u) w")
  with migrate_table_never_raises [OF assms, of ok nk t dn f u w] have r1: "r1 = Inr ()" by simp
  from migrate_table_sends [of net ok nk t dn f u w] mt obtain ps where
    ps: "reqs w1 = reqs w @ select_all_request OLD_SUPABASE_URL ok t # ps"
      "\<forall>r\<in>set ps. is_write_to t r"
    by auto
  from ps(2) have "filter (\<lambda>r. req_method r = GET) ps = []"
    by (auto simp add: filter_empty_conv is_write_to_def)
  with ps(1) have "filter (\<lambda>r. req_method r = GET) (reqs w1) =
      filter (\<lambda>r. req_method r = GET) (reqs w) @ [select_all_request OLD_SUPABASE_URL ok t]"
    by simp
  with mt d r1 Cons.IH [of w1] show ?case by simp
qed

lemma migrate_tables_indep:
  "reqs w1 = reqs w2 \<Longrightarrow>
   fst (migrate_tables net ok nk (map (\<lambda>(t, dn, f, u). (t, rename dn, f, u)) ds) w1) =
     fst (migrate_tables net ok nk ds w2) \<and>
   reqs (snd (migrate_tables net ok nk (map (\<lambda>(t, dn, f, u). (t, rename dn, f, u)) ds) w1)) =
     reqs (snd (migrate_tables net ok nk ds w2))"
proof (induction ds arbitrary: w1 w2)
  case Nil
  then show ?case by simp
next
  case (Cons d rest)
  obtain t dn f u where d: "d = (t, dn, f, u)" by (cases d)
  obtain r1 v1 where m1: "migrate_table net ok nk (t, rename dn, f, u) w1 = (r1, v1)"
    by (cases "migrate_table net ok nk (t, rename dn, f, u) w1")
  obtain r2 v2 where m2: "migrate_table net ok nk (t, dn, f, u) w2 = (r2, v2)"
    by (cases "migrate_table net ok nk (t, dn, f, u) w2")
  from migrate_table_indep [OF Cons.prems, of net ok nk t "rename dn" f u dn] m1 m2
  have same: "r1 = r2" "reqs v1 = reqs v2" by simp_all
  show ?case
  proof (cases r2)
    case (Inl e)
    with same m1 m2 d show ?thesis by simp
  next
    case (Inr x)
    with same m1 m2 d Cons.IH [OF same(2)] show ?thesis by simp
  qed
qed


lemma main_is_loop:
  "fst (main net ok nk) =
     fst (migrate_tables net ok nk tables
            (say Blank (say (ToProject NEW_PROJECT_ID) (say (FromProject OLD_PROJECT_ID)
               (say Starting \<lparr>reqs = [], out = []\<rparr>))))) \<and>
   reqs (snd (main net ok nk)) =
     reqs (snd (migrate_tables net ok nk tables
            (say Blank (say (ToProject NEW_PROJECT_ID) (say (FromProject OLD_PROJECT_ID)
               (say Starting \<lparr>reqs = [], out = []\<rparr>))))))"
  by (simp add: main_def Let_def split: prod.splits sum.splits)

lemma transforms_nonempty:
  "data \<noteq> [] \<Longrightarrow> transform_cat_name_options data \<noteq> []"
  "data \<noteq> [] \<Longrightarrow> transform_cat_app_users data \<noteq> []"
  "data \<noteq> [] \<Longrightarrow> transform_cat_name_ratings data \<noteq> []"
  "data \<noteq> [] \<Longrightarrow> transform_tournament_selections data \<noteq> []"
  by (simp_all add: transform_maps)

lemma migrate_table_no_data:
  assumes "get_data_from_table net OLD_SUPABASE_URL ok t (say (Extracting dn) w) = (Inr [], w1)"
  shows "migrate_table net ok nk (t, dn, f, u) w =
           (Inr (), say Blank (say (NoDataFound dn) w1))"
  using assms by (simp add: migrate_table.simps)

lemma migrate_table_loads:
  assumes "get_data_from_table net OLD_SUPABASE_URL ok t (say (Extracting dn) w)
             = (Inr data, w1)"
    and "data \<noteq> []"
    and "insert_data_to_table net NEW_SUPABASE_URL nk t (f data) u
           (say (Inserting dn) (say (Transforming dn) (say (Extracted (length data) dn) w1)))
             = (Inr b, w5)"
  shows "migrate_table net ok nk (t, dn, f, u) w =
           (Inr (), say Blank (if b then say (Migrated dn) w5
                               else say Continuing (say (FailedToMigrate dn) w5)))"
  using assms by (simp add: migrate_table.simps Let_def)

lemma migrate_tables_append:
  "migrate_tables net ok nk (xs @ ys) w =
     (case migrate_tables net ok nk xs w of
        (Inl e, w') \<Rightarrow> (Inl e, w')
      | (Inr u, w') \<Rightarrow> migrate_tables net ok nk ys w')"
  by (induction xs arbitrary: w) (simp_all split: prod.splits sum.splits)

lemma loop_reaches:
  assumes "\<forall>h rq. catchable (net h rq)"
  shows "k \<le> length tables \<Longrightarrow>
         migrate_tables net ok nk (take k tables) (world_at net ok nk 0) =
           (Inr (), world_at net ok nk k)"
proof (induction k)
  case 0
  show ?case by simp
next
  case (Suc k)
  then have k: "k < length tables" by simp
  obtain t dn f u where d: "tables ! k = (t, dn, f, u)" by (cases "tables ! k")
  obtain r1 w1 where mt: "migrate_table net ok nk (t, dn, f, u) (world_at net ok nk k) = (r1, w1)"
    by (cases "migrate_table net ok nk (t, dn, f, u) (world_at net ok nk k)")
  with migrate_table_never_raises [OF assms, of ok nk t dn f u "world_at net ok nk k"]
  have r1: "r1 = Inr ()" by simp
  from Suc k have "migrate_tables net ok nk (take k tables) (world_at net ok nk 0) =
           (Inr (), world_at net ok nk k)" by simp
  with mt r1 d show ?case
    by (simp add: take_Suc_conv_app_nth [OF k] migrate_tables_append del: world_at.simps(1))
qed

lemma length_tables: "length tables = 4"
  by (simp add: tables_def)

lemma main_is_trace:
  assumes "\<forall>h rq. catchable (net h rq)"
  shows "main net ok nk = (Inr (), say CheckProject (say Completed (world_at net ok nk 4)))"
proof -
  from loop_reaches [OF assms, of 4 ok nk]
  have "migrate_tables net ok nk tables (world_at net ok nk 0) = (Inr (), world_at net ok nk 4)"
    by (simp add: length_tables del: world_at.simps)
  then show ?thesis
    by (simp add: main_def Let_def)
qed

lemma tables_transform_nonempty:
  assumes "k < 4" and "tables ! k = (t, dn, f, u)" and "data \<noteq> []"
  shows "f data \<noteq> []"
proof -
  from assms(1) consider "k = 0" | "k = 1" | "k = 2" | "k = 3" by linarith
  then show ?thesis
  proof cases
    case 1
    with assms(2) have "f = transform_cat_name_options" by (simp add: tables_def)
    with assms(3) show ?thesis by (simp add: transforms_nonempty)
  next
    case 2
    with assms(2) have "f = transform_cat_app_users" by (simp add: tables_def)
    with assms(3) show ?thesis by (simp add: transforms_nonempty)
  next
    case 3
    with assms(2) have "f = transform_cat_name_ratings" by (simp add: tables_def)
    with assms(3) show ?thesis by (simp add: transforms_nonempty)
  next
    case 4
    with assms(2) have "f = transform_tournament_selections"
      by (simp add: tables_def numeral_3_eq_3)
    with assms(3) show ?thesis by (simp add: transforms_nonempty)
  qed
qed

lemma loader_writes:
  assumes "insert_data_to_table net NEW_SUPABASE_URL nk t rows u w4 = (r5, w5)"
    and "rows \<noteq> []"
  shows "\<exists>rq\<in>set (drop (length (reqs w4)) (reqs w5)). is_write_to t rq"
proof -
  from insert_sends [of net NEW_SUPABASE_URL nk t rows u w4] assms obtain ps where
    ps: "reqs w5 = reqs w4 @ ps"
      "\<forall>r\<in>set ps. req_method r = POST \<and> req_url r = NEW_SUPABASE_URL @ ''/rest/v1/'' @ t"
      "ps \<noteq> []"
    by auto
  from ps(3) obtain rq where "rq \<in> set ps" by (cases ps) auto
  with ps(1,2) show ?thesis by (auto simp add: is_write_to_def)
qed


text \<open>
  Claim C6. When no call raises anything but a \<^verbatim>\<open>RequestException\<close>, \<^verbatim>\<open>main\<close> returns
  normally, having run the loop body on each of the four descriptors in turn, each on the
  state the previous one left, and its read requests are those of the four tables in the
  listed order. For each descriptor, at the state the run has when it reaches it: the
  extraction returns a row list; if that list is empty the body ends right after
  printing the no-data line and the blank line, without calling the loader; if it is not
  empty the loader is called on the transformed rows, at least one write request for the
  table is sent, and the body ends after the success or failure lines, whichever the
  loader's result selects. In each case the loop goes on to the next descriptor.
\<close>

theorem main_attempts_every_table:
  assumes "\<forall>h rq. catchable (net h rq)"
  shows "fst (main net ok nk) = Inr () \<and>
         snd (main net ok nk) = say CheckProject (say Completed (world_at net ok nk 4)) \<and>
         filter (\<lambda>r. req_method r = GET) (reqs (snd (main net ok nk))) =
           map (select_all_request OLD_SUPABASE_URL ok)
             [''cat_name_options'', ''cat_app_users'', ''cat_name_ratings'',
              ''tournament_selections''] \<and>
         (\<forall>k<4. \<forall>t dn f u res w1.
            tables ! k = (t, dn, f, u) \<and>
            get_data_from_table net OLD_SUPABASE_URL ok t
              (say (Extracting dn) (world_at net ok nk k)) = (res, w1) \<longrightarrow>
            (\<exists>data. res = Inr data) \<and>
            (res = Inr [] \<longrightarrow>
               migrate_table net ok nk (t, dn, f, u) (world_at net ok nk k) =
                 (Inr (), say Blank (say (NoDataFound dn) w1))) \<and>
            (\<forall>data r5 w5.
               res = Inr data \<and> data \<noteq> [] \<and>
               insert_data_to_table net NEW_SUPABASE_URL nk t (f data) u
                 (say (Inserting dn) (say (Transforming dn)
                    (say (Extracted (length data) dn) w1))) = (r5, w5) \<longrightarrow>
               (\<exists>b. r5 = Inr b \<and>
                    migrate_table net ok nk (t, dn, f, u) (world_at net ok nk k) =
                      (Inr (), say Blank (if b then say (Migrated dn) w5
                                          else say Continuing (say (FailedToMigrate dn) w5)))) \<and>
               (\<exists>rq\<in>set (drop (length (reqs w1)) (reqs w5)). is_write_to t rq)))"
proof -
  note m = main_is_trace [OF assms, of ok nk]
  have a: "fst (main net ok nk) = Inr ()"
    and b: "snd (main net ok nk) = say CheckProject (say Completed (world_at net ok nk 4))"
    by (simp_all only: m fst_conv snd_conv)
  have c: "filter (\<lambda>r. req_method r = GET) (reqs (snd (main net ok nk))) =
           map (select_all_request OLD_SUPABASE_URL ok)
             [''cat_name_options'', ''cat_app_users'', ''cat_name_ratings'',
              ''tournament_selections'']"
    using main_is_loop [of net ok nk]
      migrate_tables_gets [OF assms, of ok nk tables
        "say Blank (say (ToProject NEW_PROJECT_ID) (say (FromProject OLD_PROJECT_ID)
           (say Starting \<lparr>reqs = [], out = []\<rparr>)))"]
    by (simp add: tables_def)
  have d: "(\<exists>data. res = Inr data) \<and>
            (res = Inr [] \<longrightarrow>
               migrate_table net ok nk (t, dn, f, u) (world_at net ok nk k) =
                 (Inr (), say Blank (say (NoDataFound dn) w1))) \<and>
            (\<forall>data r5 w5.
               res = Inr data \<and> data \<noteq> [] \<and>
               insert_data_to_table net NEW_SUPABASE_URL nk t (f data) u
                 (say (Inserting dn) (say (Transforming dn)
                    (say (Extracted (length data) dn) w1))) = (r5, w5) \<longrightarrow>
               (\<exists>b. r5 = Inr b \<and>
                    migrate_table net ok nk (t, dn, f, u) (world_at net ok nk k) =
                      (Inr (), say Blank (if b then say (Migrated dn) w5
                                          else say Continuing (say (FailedToMigrate dn) w5)))) \<and>
               (\<exists>rq\<in>set (drop (length (reqs w1)) (reqs w5)). is_write_to t rq))"
    if k: "k < 4" and tk: "tables ! k = (t, dn, f, u)"
      and g: "get_data_from_table net OLD_SUPABASE_URL ok t
                (say (Extracting dn) (world_at net ok nk k)) = (res, w1)"
    for k t dn f u res w1
  proof (intro conjI allI impI)
    from get_never_raises [OF assms, of OLD_SUPABASE_URL ok t
        "say (Extracting dn) (world_at net ok nk k)"] g
    show "\<exists>data. res = Inr data" by simp
  next
    assume "res = Inr []"
    with g show "migrate_table net ok nk (t, dn, f, u) (world_at net ok nk k) =
                 (Inr (), say Blank (say (NoDataFound dn) w1))"
      by (intro migrate_table_no_data) simp
  next
    fix data r5 w5
    assume h: "res = Inr data \<and> data \<noteq> [] \<and>
               insert_data_to_table net NEW_SUPABASE_URL nk t (f data) u
                 (say (Inserting dn) (say (Transforming dn)
                    (say (Extracted (length data) dn) w1))) = (r5, w5)"
    from insert_never_raises [OF assms, of NEW_SUPABASE_URL nk t "f data" u
        "say (Inserting dn) (say (Transforming dn) (say (Extracted (length data) dn) w1))"] h
    obtain b where b: "r5 = Inr b" by auto
    from g h b have "migrate_table net ok nk (t, dn, f, u) (world_at net ok nk k) =
                      (Inr (), say Blank (if b then say (Migrated dn) w5
                                          else say Continuing (say (FailedToMigrate dn) w5)))"
      by (intro migrate_table_loads [of net ok t dn _ data w1]) simp_all
    with b show "\<exists>b. r5 = Inr b \<and>
                    migrate_table net ok nk (t, dn, f, u) (world_at net ok nk k) =
                      (Inr (), say Blank (if b then say (Migrated dn) w5
                                          else say Continuing (say (FailedToMigrate dn) w5)))"
      by blast
  next
    fix data r5 w5
    assume h: "res = Inr data \<and> data \<noteq> [] \<and>
               insert_data_to_table net NEW_SUPABASE_URL nk t (f data) u
                 (say (Inserting dn) (say (Transforming dn)
                    (say (Extracted (length data) dn) w1))) = (r5, w5)"
    then have ne: "f data \<noteq> []"
      using tables_transform_nonempty [OF k tk] by blast
    from h have ins: "insert_data_to_table net NEW_SUPABASE_URL nk t (f data) u
                 (say (Inserting dn) (say (Transforming dn)
                    (say (Extracted (length data) dn) w1))) = (r5, w5)" by simp
    from loader_writes [OF ins ne]
    show "\<exists>rq\<in>set (drop (length (reqs w1)) (reqs w5)). is_write_to t rq" by simp
  qed
  have d': "\<forall>k<4. \<forall>t dn f u res w1.
            tables ! k = (t, dn, f, u) \<and>
            get_data_from_table net OLD_SUPABASE_URL ok t
              (say (Extracting dn) (world_at net ok nk k)) = (res, w1) \<longrightarrow>
            (\<exists>data. res = Inr data) \<and>
            (res = Inr [] \<longrightarrow>
               migrate_table net ok nk (t, dn, f, u) (world_at net ok nk k) =
                 (Inr (), say Blank (say (NoDataFound dn) w1))) \<and>
            (\<forall>data r5 w5.
               res = Inr data \<and> data \<noteq> [] \<and>
               insert_data_to_table net NEW_SUPABASE_URL nk t (f data) u
                 (say (Inserting dn) (say (Transforming dn)
                    (say (Extracted (length data) dn) w1))) = (r5, w5) \<longrightarrow>
               (\<exists>b. r5 = Inr b \<and>
                    migrate_table net ok nk (t, dn, f, u) (world_at net ok nk k) =
                      (Inr (), say Blank (if b then say (Migrated dn) w5
                                          else say Continuing (say (FailedToMigrate dn) w5)))) \<and>
               (\<exists>rq\<in>set (drop (length (reqs w1)) (reqs w5)). is_write_to t rq))"
  proof (intro allI impI)
    fix k t dn f u res w1
    assume "k < 4" and "tables ! k = (t, dn, f, u) \<and>
            get_data_from_table net OLD_SUPABASE_URL ok t
              (say (Extracting dn) (world_at net ok nk k)) = (res, w1)"
    then show "(\<exists>data. res = Inr data) \<and>
            (res = Inr [] \<longrightarrow>
               migrate_table net ok nk (t, dn, f, u) (world_at net ok nk k) =
                 (Inr (), say Blank (say (NoDataFound dn) w1))) \<and>
            (\<forall>data r5 w5.
               res = Inr data \<and> data \<noteq> [] \<and>
               insert_data_to_table net NEW_SUPABASE_URL nk t (f data) u
                 (say (Inserting dn) (say (Transforming dn)
                    (say (Extracted (length data) dn) w1))) = (r5, w5) \<longrightarrow>
               (\<exists>b. r5 = Inr b \<and>
                    migrate_table net ok nk (t, dn, f, u) (world_at net ok nk k) =
                      (Inr (), say Blank (if b then say (Migrated dn) w5
                                          else say Continuing (say (FailedToMigrate dn) w5)))) \<and>
               (\<exists>rq\<in>set (drop (length (reqs w1)) (reqs w5)). is_write_to t rq))"
      using d [of k t dn f u res w1] by (elim conjE) (rule d, assumption+)
  qed
  show ?thesis
    using a b c d' by (intro conjI) assumption+
qed


lemma users_table_empty_catchable: "\<forall>h rq. catchable (users_table_empty h rq)"
  by (simp add: users_table_empty_def)

lemma users_table_empty_none:
  "\<forall>w. fst (get_data_from_table users_table_empty OLD_SUPABASE_URL ok ''cat_app_users'' w)
        = Inr []"
  by (simp add: get_data_from_table_def send_def users_table_empty_def raise_for_status_def
      Let_def)

lemma users_table_empty_some:
  "\<forall>w. \<exists>rows. rows \<noteq> [] \<and>
     fst (get_data_from_table users_table_empty OLD_SUPABASE_URL ok ''cat_name_options'' w)
       = Inr rows"
  "\<forall>w. \<exists>rows. rows \<noteq> [] \<and>
     fst (get_data_from_table users_table_empty OLD_SUPABASE_URL ok ''cat_name_ratings'' w)
       = Inr rows"
  "\<forall>w. \<exists>rows. rows \<noteq> [] \<and>
     fst (get_data_from_table users_table_empty OLD_SUPABASE_URL ok ''tournament_selections'' w)
       = Inr rows"
  by (simp_all add: get_data_from_table_def send_def users_table_empty_def
      raise_for_status_def Let_def)

lemma users_table_empty_get:
  "get_data_from_table users_table_empty OLD_SUPABASE_URL ok ''cat_app_users'' w =
     (Inr [], w\<lparr>reqs := reqs w @
        [select_all_request OLD_SUPABASE_URL ok ''cat_app_users'']\<rparr>)"
  by (simp add: get_data_from_table_def send_def users_table_empty_def raise_for_status_def
      select_all_request_def Let_def)

theorem main_attempts_every_table_witness:
  "fst (main users_table_empty ''k1'' ''k2'') = Inr () \<and>
   reqs (world_at users_table_empty ''k1'' ''k2'' 2) =
     reqs (world_at users_table_empty ''k1'' ''k2'' 1) @
       [select_all_request OLD_SUPABASE_URL ''k1'' ''cat_app_users''] \<and>
   out (world_at users_table_empty ''k1'' ''k2'' 2) =
     out (world_at users_table_empty ''k1'' ''k2'' 1) @
       [Extracting ''cat_app_users'', NoDataFound ''cat_app_users'', Blank] \<and>
   filter (is_write_to ''cat_name_options'')
     (reqs (world_at users_table_empty ''k1'' ''k2'' 1)) \<noteq> [] \<and>
   filter (is_write_to ''cat_name_ratings'')
     (reqs (world_at users_table_empty ''k1'' ''k2'' 3)) \<noteq> [] \<and>
   filter (is_write_to ''tournament_selections'')
     (reqs (world_at users_table_empty ''k1'' ''k2'' 4)) \<noteq> []"
proof -
  note T = main_attempts_every_table [OF users_table_empty_catchable, of "''k1''" "''k2''"]
  from T have a: "fst (main users_table_empty ''k1'' ''k2'') = Inr ()"
    by (rule conjunct1)
  note run = T [THEN conjunct2, THEN conjunct2, THEN conjunct2, rule_format]
  have nth: "tables ! 0 = (''cat_name_options'', ''cat_name_options'',
                           transform_cat_name_options, True)"
    "tables ! 1 = (''cat_app_users'', ''cat_app_users'', transform_cat_app_users, False)"
    "tables ! 2 = (''cat_name_ratings'', ''cat_name_ratings'',
                   transform_cat_name_ratings, False)"
    "tables ! 3 = (''tournament_selections'', ''tournament_selections'',
                   transform_tournament_selections, False)"
    by (simp_all add: tables_def numeral_3_eq_3 numeral_2_eq_2)
  have step: "world_at users_table_empty ''k1'' ''k2'' (Suc k) =
      snd (migrate_table users_table_empty ''k1'' ''k2'' (tables ! k)
             (world_at users_table_empty ''k1'' ''k2'' k))" for k
    by simp
  have skipped: "migrate_table users_table_empty ''k1'' ''k2''
          (''cat_app_users'', ''cat_app_users'', transform_cat_app_users, False)
          (world_at users_table_empty ''k1'' ''k2'' 1) =
        (Inr (), say Blank (say (NoDataFound ''cat_app_users'')
           ((say (Extracting ''cat_app_users'') (world_at users_table_empty ''k1'' ''k2'' 1))
              \<lparr>reqs := reqs (say (Extracting ''cat_app_users'')
                               (world_at users_table_empty ''k1'' ''k2'' 1)) @
                 [select_all_request OLD_SUPABASE_URL ''k1'' ''cat_app_users'']\<rparr>)))"
  proof -
    have k: "(1::nat) < 4" by simp
    have h: "tables ! 1 =
               (''cat_app_users'', ''cat_app_users'', transform_cat_app_users, False) \<and>
             get_data_from_table users_table_empty OLD_SUPABASE_URL ''k1'' ''cat_app_users''
               (say (Extracting ''cat_app_users'') (world_at users_table_empty ''k1'' ''k2'' 1)) =
             (Inr [],
              (say (Extracting ''cat_app_users'') (world_at users_table_empty ''k1'' ''k2'' 1))
                \<lparr>reqs := reqs (say (Extracting ''cat_app_users'')
                                 (world_at users_table_empty ''k1'' ''k2'' 1)) @
                   [select_all_request OLD_SUPABASE_URL ''k1'' ''cat_app_users'']\<rparr>)"
      by (simp only: nth users_table_empty_get simp_thms)
    from run [OF k h, THEN conjunct2, THEN conjunct1]
    show ?thesis by (rule mp) (rule refl)
  qed
  have two: "world_at users_table_empty ''k1'' ''k2'' 2 =
      snd (migrate_table users_table_empty ''k1'' ''k2''
          (''cat_app_users'', ''cat_app_users'', transform_cat_app_users, False)
          (world_at users_table_empty ''k1'' ''k2'' 1))"
  proof -
    have "(2::nat) = Suc 1" by simp
    then show ?thesis by (simp only: step nth(2))
  qed
  have b: "reqs (world_at users_table_empty ''k1'' ''k2'' 2) =
     reqs (world_at users_table_empty ''k1'' ''k2'' 1) @
       [select_all_request OLD_SUPABASE_URL ''k1'' ''cat_app_users'']"
    and c: "out (world_at users_table_empty ''k1'' ''k2'' 2) =
     out (world_at users_table_empty ''k1'' ''k2'' 1) @
       [Extracting ''cat_app_users'', NoDataFound ''cat_app_users'', Blank]"
    unfolding two skipped by (simp_all add: say_def)
  have writes: "filter (is_write_to t) (reqs (world_at users_table_empty ''k1'' ''k2'' (Suc k)))
                  \<noteq> []"
    if k: "k < 4" and tk: "tables ! k = (t, dn, f, u)"
      and rows: "\<forall>w. \<exists>rows. rows \<noteq> [] \<and>
            fst (get_data_from_table users_table_empty OLD_SUPABASE_URL ''k1'' t w) = Inr rows"
    for k t dn f u
  proof -
    let ?w = "world_at users_table_empty ''k1'' ''k2'' k"
    let ?G = "get_data_from_table users_table_empty OLD_SUPABASE_URL ''k1'' t
                (say (Extracting dn) ?w)"
    from rows obtain data where data: "data \<noteq> []" "fst ?G = Inr data" by blast
    then have g: "?G = (Inr data, snd ?G)" by (simp add: prod_eq_iff)
    let ?I = "insert_data_to_table users_table_empty NEW_SUPABASE_URL ''k2'' t (f data) u
                (say (Inserting dn) (say (Transforming dn)
                   (say (Extracted (length data) dn) (snd ?G))))"
    obtain r5 w5 where ins: "?I = (r5, w5)" by (cases ?I)
    from run [of k t dn f u "Inr data" "snd ?G", OF k conjI [OF tk g]]
    have "(\<exists>b. r5 = Inr b \<and>
              migrate_table users_table_empty ''k1'' ''k2'' (t, dn, f, u) ?w =
                (Inr (), say Blank (if b then say (Migrated dn) w5
                                    else say Continuing (say (FailedToMigrate dn) w5)))) \<and>
          (\<exists>rq\<in>set (drop (length (reqs (snd ?G))) (reqs w5)). is_write_to t rq)"
      using data(1) ins by blast
    then obtain b rq where
      mt: "migrate_table users_table_empty ''k1'' ''k2'' (t, dn, f, u) ?w =
             (Inr (), say Blank (if b then say (Migrated dn) w5
                                 else say Continuing (say (FailedToMigrate dn) w5)))"
      and rq: "rq \<in> set (drop (length (reqs (snd ?G))) (reqs w5))" "is_write_to t rq"
      by blast
    from mt tk have "reqs (world_at users_table_empty ''k1'' ''k2'' (Suc k)) = reqs w5"
      by simp
    moreover from rq(1) have "rq \<in> set (reqs w5)" by (rule in_set_dropD)
    ultimately show ?thesis
      using rq(2) by (auto simp add: filter_empty_conv)
  qed
  have lt: "(0::nat) < 4" "(2::nat) < 4" "(3::nat) < 4" by simp_all
  have suc: "(1::nat) = Suc 0" "(3::nat) = Suc 2" "(4::nat) = Suc 3" by simp_all
  have d: "filter (is_write_to ''cat_name_options'')
     (reqs (world_at users_table_empty ''k1'' ''k2'' 1)) \<noteq> []"
    unfolding suc(1) by (rule writes [OF lt(1) nth(1) users_table_empty_some(1)])
  have e: "filter (is_write_to ''cat_name_ratings'')
     (reqs (world_at users_table_empty ''k1'' ''k2'' 3)) \<noteq> []"
    unfolding suc(2) by (rule writes [OF lt(2) nth(3) users_table_empty_some(2)])
  have f: "filter (is_write_to ''tournament_selections'')
     (reqs (world_at users_table_empty ''k1'' ''k2'' 4)) \<noteq> []"
    unfolding suc(3) by (rule writes [OF lt(3) nth(4) users_table_empty_some(3)])
  from a b c d e f show ?thesis by (intro conjI)
qed

text \<open>
  Claim C10. Every request sent for a descriptor is the read request of its table name
  or a write request to its table name, the first element of the tuple. The display
  name, the second element, reaches no request: replacing it changes neither the
  requests sent for a descriptor nor the result and the requests of the whole loop.
\<close>

theorem display_name_not_in_requests:
  "(\<forall>r\<in>set (drop (length (reqs w)) (reqs (snd (migrate_table net ok nk (t, dn, f, u) w)))).
       r = select_all_request OLD_SUPABASE_URL ok t \<or> is_write_to t r) \<and>
   reqs (snd (migrate_table net ok nk (t, dn', f, u) w)) =
     reqs (snd (migrate_table net ok nk (t, dn, f, u) w)) \<and>
   fst (migrate_tables net ok nk (map (\<lambda>(t, dn, f, u). (t, rename dn, f, u)) ds) w) =
     fst (migrate_tables net ok nk ds w) \<and>
   reqs (snd (migrate_tables net ok nk (map (\<lambda>(t, dn, f, u). (t, rename dn, f, u)) ds) w)) =
     reqs (snd (migrate_tables net ok nk ds w))"
proof -
  from migrate_table_sends [of net ok nk t dn f u w] obtain ps where
    ps: "reqs (snd (migrate_table net ok nk (t, dn, f, u) w)) =
           reqs w @ select_all_request OLD_SUPABASE_URL ok t # ps"
      "\<forall>r\<in>set ps. is_write_to t r"
    by blast
  then have a: "\<forall>r\<in>set (drop (length (reqs w))
                        (reqs (snd (migrate_table net ok nk (t, dn, f, u) w)))).
       r = select_all_request OLD_SUPABASE_URL ok t \<or> is_write_to t r"
    by simp
  have b: "reqs (snd (migrate_table net ok nk (t, dn', f, u) w)) =
     reqs (snd (migrate_table net ok nk (t, dn, f, u) w))"
    using migrate_table_indep [OF refl, of net ok nk t dn' f u w dn] by simp
  have c: "fst (migrate_tables net ok nk (map (\<lambda>(t, dn, f, u). (t, rename dn, f, u)) ds) w) =
     fst (migrate_tables net ok nk ds w) \<and>
   reqs (snd (migrate_tables net ok nk (map (\<lambda>(t, dn, f, u). (t, rename dn, f, u)) ds) w)) =
     reqs (snd (migrate_tables net ok nk ds w))"
    by (rule migrate_tables_indep [OF refl])
  from a b c show ?thesis by (intro conjI) simp_all
qed

theorem display_name_not_in_requests_witness:
  "last (reqs (snd (migrate_table users_table_empty ''k1'' ''k2''
           (''cat_name_options'', ''Names'', transform_cat_name_options, True)
           \<lparr>reqs = [], out = []\<rparr>)))
     = select_all_request OLD_SUPABASE_URL ''k1'' ''cat_name_options'' \<or>
   is_write_to ''cat_name_options''
     (last (reqs (snd (migrate_table users_table_empty ''k1'' ''k2''
           (''cat_name_options'', ''Names'', transform_cat_name_options, True)
           \<lparr>reqs = [], out = []\<rparr>))))"
proof -
  let ?rs = "reqs (snd (migrate_table users_table_empty ''k1'' ''k2''
           (''cat_name_options'', ''Names'', transform_cat_name_options, True)
           \<lparr>reqs = [], out = []\<rparr>))"
  from migrate_table_sends [of users_table_empty "''k1''" "''k2''" "''cat_name_options''"
      "''Names''" transform_cat_name_options True "\<lparr>reqs = [], out = []\<rparr>"]
  have "?rs \<noteq> []" by auto
  then have "last ?rs \<in> set (drop (length (reqs \<lparr>reqs = [], out = []\<rparr>)) ?rs)"
    by simp
  from display_name_not_in_requests [THEN conjunct1, rule_format, OF this]
  show ?thesis .
qed

end
